theory Spec2Isabelle
  imports Main "HOL-Library.Sublist"
begin

section \<open>Strings of the runtime\<close>

text \<open>
  The runner of \<^verbatim>\<open>skill-run.service.ts\<close> works on JavaScript strings that it reads from
  and writes to UTF-8 files. A string is modelled as the list of the bytes of its UTF-8
  encoding (\<open>string\<close> is \<open>char list\<close>, a \<open>char\<close> is a byte). Searching, splitting and
  concatenation of well-formed UTF-8 agree with the same operations on code points.
  Lengths in UTF-16 code units are not modelled; no operation below reads one.
\<close>

abbreviation LF :: char where "LF \<equiv> CHR 0x0A"
abbreviation CR :: char where "CR \<equiv> CHR 0x0D"
abbreviation DQ :: char where "DQ \<equiv> CHR 0x22"

text \<open>\<^verbatim>\<open>s.startsWith(p)\<close>.\<close>

fun startsWith :: "string \<Rightarrow> string \<Rightarrow> bool" where
  "startsWith s [] = True"
| "startsWith [] (p # ps) = False"
| "startsWith (c # s) (p # ps) = (c = p \<and> startsWith s ps)"

text \<open>\<^verbatim>\<open>s.indexOf(p)\<close>; the result \<open>-1\<close> of the source is \<open>None\<close>.\<close>

fun indexOf :: "string \<Rightarrow> string \<Rightarrow> nat option" where
  "indexOf [] p = (if p = [] then Some 0 else None)"
| "indexOf (c # s) p =
     (if startsWith (c # s) p then Some 0 else map_option Suc (indexOf s p))"

text \<open>\<^verbatim>\<open>s.lastIndexOf(p)\<close>, for a pattern that is not empty.\<close>

fun lastIndexOf :: "string \<Rightarrow> string \<Rightarrow> nat option" where
  "lastIndexOf [] p = None"
| "lastIndexOf (c # s) p =
     (case lastIndexOf s p of
        Some i \<Rightarrow> Some (Suc i)
      | None \<Rightarrow> if startsWith (c # s) p then Some 0 else None)"

text \<open>\<^verbatim>\<open>s.includes(p)\<close>.\<close>

definition str_includes :: "string \<Rightarrow> string \<Rightarrow> bool" where
  "str_includes s p = (indexOf s p \<noteq> None)"

text \<open>
  The white space of ECMAScript (\<^verbatim>\<open>WhiteSpace\<close> and \<^verbatim>\<open>LineTerminator\<close>), which
  \<^verbatim>\<open>trim\<close>, \<^verbatim>\<open>trimStart\<close>, \<^verbatim>\<open>trimEnd\<close> and the class \<^verbatim>\<open>\s\<close> of a regular expression
  use: each code point as its UTF-8 bytes. U+0009 to U+000D, U+0020, U+00A0, U+1680,
  U+2000 to U+200A, U+2028, U+2029, U+202F, U+205F, U+3000, U+FEFF.
\<close>

definition js_whitespace :: "string list" where
  "js_whitespace =
     [[CHR 0x09], [CHR 0x0A], [CHR 0x0B], [CHR 0x0C], [CHR 0x0D], [CHR 0x20],
      [CHR 0xC2, CHR 0xA0],
      [CHR 0xE1, CHR 0x9A, CHR 0x80],
      [CHR 0xE2, CHR 0x80, CHR 0x80], [CHR 0xE2, CHR 0x80, CHR 0x81],
      [CHR 0xE2, CHR 0x80, CHR 0x82], [CHR 0xE2, CHR 0x80, CHR 0x83],
      [CHR 0xE2, CHR 0x80, CHR 0x84], [CHR 0xE2, CHR 0x80, CHR 0x85],
      [CHR 0xE2, CHR 0x80, CHR 0x86], [CHR 0xE2, CHR 0x80, CHR 0x87],
      [CHR 0xE2, CHR 0x80, CHR 0x88], [CHR 0xE2, CHR 0x80, CHR 0x89],
      [CHR 0xE2, CHR 0x80, CHR 0x8A],
      [CHR 0xE2, CHR 0x80, CHR 0xA8], [CHR 0xE2, CHR 0x80, CHR 0xA9],
      [CHR 0xE2, CHR 0x80, CHR 0xAF],
      [CHR 0xE2, CHR 0x81, CHR 0x9F],
      [CHR 0xE3, CHR 0x80, CHR 0x80],
      [CHR 0xEF, CHR 0xBB, CHR 0xBF]]"

text \<open>
  The number of bytes of the first of the sequences \<open>ws\<close> that \<open>s\<close> starts with, 0 when
  it starts with none of them.
\<close>

definition match_len :: "string list \<Rightarrow> string \<Rightarrow> nat" where
  "match_len ws s =
     (case find (\<lambda>w. startsWith s w) ws of None \<Rightarrow> 0 | Some w \<Rightarrow> length w)"

function strip_leading :: "string list \<Rightarrow> string \<Rightarrow> string" where
  "strip_leading ws s =
     (if match_len ws s = 0 \<or> s = [] then s
      else strip_leading ws (drop (match_len ws s) s))"
  by pat_completeness auto
termination
  by (relation "measure (\<lambda>(ws, s). length s)") auto

declare strip_leading.simps [simp del]

definition trimStart :: "string \<Rightarrow> string" where
  "trimStart s = strip_leading js_whitespace s"

definition trimEnd :: "string \<Rightarrow> string" where
  "trimEnd s = rev (strip_leading (map rev js_whitespace) (rev s))"

definition trim :: "string \<Rightarrow> string" where
  "trim s = trimEnd (trimStart s)"

text \<open>Whether a string begins, or ends, with a white space code point.\<close>

definition begins_with_space :: "string \<Rightarrow> bool" where
  "begins_with_space s = (match_len js_whitespace s \<noteq> 0)"

definition ends_with_space :: "string \<Rightarrow> bool" where
  "ends_with_space s = (match_len (map rev js_whitespace) (rev s) \<noteq> 0)"

text \<open>The first bytes, and the last bytes, of the white space code points.\<close>

definition first_space_bytes :: "char list" where
  "first_space_bytes = [CHR 0x09, CHR 0x0A, CHR 0x0B, CHR 0x0C, CHR 0x0D, CHR 0x20, CHR 0xC2, CHR 0xE1, CHR 0xE2, CHR 0xE3, CHR 0xEF]"

definition last_space_bytes :: "char list" where
  "last_space_bytes = [CHR 0x09, CHR 0x0A, CHR 0x0B, CHR 0x0C, CHR 0x0D, CHR 0x20, CHR 0xA0, CHR 0x80, CHR 0x81, CHR 0x82, CHR 0x83, CHR 0x84, CHR 0x85, CHR 0x86, CHR 0x87, CHR 0x88, CHR 0x89, CHR 0x8A, CHR 0xA8, CHR 0xA9, CHR 0xAF, CHR 0x9F, CHR 0xBF]"

text \<open>\<^verbatim>\<open>xs.join(sep)\<close> on an array of strings.\<close>

fun join :: "string \<Rightarrow> string list \<Rightarrow> string" where
  "join sep [] = []"
| "join sep [x] = x"
| "join sep (x # y # ys) = x @ sep @ join sep (y # ys)"

text \<open>
  \<^verbatim>\<open>String(n)\<close> of a natural number below \<open>10^21\<close>, where JavaScript prints all the
  digits: the decimal digits, most significant first.
\<close>

definition digit_char :: "nat \<Rightarrow> char" where
  "digit_char d = ''0123456789'' ! d"

function nat_to_string :: "nat \<Rightarrow> string" where
  "nat_to_string n =
     (if n < 10 then [digit_char n] else nat_to_string (n div 10) @ [digit_char (n mod 10)])"
  by pat_completeness auto
termination
  by (relation "measure id") auto

declare nat_to_string.simps [simp del]

section \<open>The plan file\<close>

text \<open>
  \<^verbatim>\<open>value.replace(/\r?\n/g, ' ')\<close>: every line feed, with the carriage return before it
  when there is one, becomes one space.
\<close>

fun replace_newlines :: "string \<Rightarrow> string" where
  "replace_newlines [] = []"
| "replace_newlines [c] = (if c = LF then [CHR 0x20] else [c])"
| "replace_newlines (c # d # s) =
     (if c = CR \<and> d = LF then CHR 0x20 # replace_newlines s
      else if c = LF then CHR 0x20 # replace_newlines (d # s)
      else c # replace_newlines (d # s))"

text \<open>\<^verbatim>\<open>normalized.replace(/"/g, '""')\<close>.\<close>

definition double_quotes :: "string \<Rightarrow> string" where
  "double_quotes s = concat (map (\<lambda>c. if c = DQ then [DQ, DQ] else [c]) s)"

definition toCsvCell :: "string \<Rightarrow> string" where
  "toCsvCell v =
     (let normalized = trim (replace_newlines v) in
      if DQ \<in> set normalized \<or> CHR '','' \<in> set normalized
      then [DQ] @ double_quotes normalized @ [DQ]
      else normalized)"

datatype CsvStatus = TODO | IN_PROGRESS | DONE | FAILED

fun csvStatusText :: "CsvStatus \<Rightarrow> string" where
  "csvStatusText TODO = ''TODO''"
| "csvStatusText IN_PROGRESS = ''IN_PROGRESS''"
| "csvStatusText DONE = ''DONE''"
| "csvStatusText FAILED = ''FAILED''"

record CsvRow =
  row_taskId :: string
  row_title :: string
  row_status :: CsvStatus
  row_acceptanceCriteria :: string
  row_validationCommand :: string
  row_completedAt :: string
  row_retryCount :: nat
  row_notes :: string
  row_dependencies :: "string list"

fun mapStatusLite :: "CsvStatus \<Rightarrow> CsvStatus" where
  "mapStatusLite st = (if st = DONE then DONE else TODO)"

text \<open>
  The cells of one line of the full plan, and of the lite plan. \<open>idx\<close> is the index of
  the row in the array, as \<^verbatim>\<open>rows.map((row, idx) => ...)\<close> passes it.
\<close>

definition csvCells :: "nat \<Rightarrow> CsvRow \<Rightarrow> string list" where
  "csvCells idx row =
     [nat_to_string (idx + 1),
      toCsvCell (''['' @ row_taskId row @ ''] '' @ row_title row),
      csvStatusText (row_status row),
      toCsvCell (row_acceptanceCriteria row),
      toCsvCell (row_validationCommand row),
      toCsvCell (row_completedAt row),
      nat_to_string (row_retryCount row),
      toCsvCell (row_notes row)]"

definition liteCsvCells :: "nat \<Rightarrow> CsvRow \<Rightarrow> string list" where
  "liteCsvCells idx row =
     [nat_to_string (idx + 1),
      toCsvCell (''['' @ row_taskId row @ ''] '' @ row_title row),
      csvStatusText (mapStatusLite (row_status row)),
      toCsvCell (row_completedAt row),
      toCsvCell (row_notes row)]"

text \<open>The rows of an array with their indices.\<close>

definition indexed :: "'a list \<Rightarrow> (nat \<times> 'a) list" where
  "indexed xs = zip [0..<length xs] xs"

definition renderCsv :: "CsvRow list \<Rightarrow> string" where
  "renderCsv rows =
     (let header =
        ''id,task,status,acceptance_criteria,validation_command,completed_at,retry_count,notes'';
          lines = map (\<lambda>(idx, row). join '','' (csvCells idx row)) (indexed rows)
      in header @ [LF] @ join [LF] lines @ [LF])"

definition renderLiteCsv :: "CsvRow list \<Rightarrow> string" where
  "renderLiteCsv rows =
     (let header = ''id,task,status,completed_at,notes'';
          lines = map (\<lambda>(idx, row). join '','' (liteCsvCells idx row)) (indexed rows)
      in header @ [LF] @ join [LF] lines @ [LF])"

section \<open>The outcome of one execution\<close>

text \<open>
  \<^verbatim>\<open>String(n)\<close> of an integer: a minus sign before the digits of a negative number.
\<close>

definition int_to_string :: "int \<Rightarrow> string" where
  "int_to_string i = (if i < 0 then ''-'' @ nat_to_string (nat (- i)) else nat_to_string (nat i))"

datatype ResultStatus = StatusDone | StatusFailed

datatype Validation = Pass | Fail | Unknown

fun resultStatusText :: "ResultStatus \<Rightarrow> string" where
  "resultStatusText StatusDone = ''done''"
| "resultStatusText StatusFailed = ''failed''"

fun validationText :: "Validation \<Rightarrow> string" where
  "validationText Pass = ''pass''"
| "validationText Fail = ''fail''"
| "validationText Unknown = ''unknown''"

record ParsedTaskResult =
  pr_status :: ResultStatus
  pr_validation :: Validation
  pr_summary :: string
  pr_raw :: string

datatype TimeoutKind = Idle | Hard

fun timeoutKindText :: "TimeoutKind \<Rightarrow> string" where
  "timeoutKindText Idle = ''idle''"
| "timeoutKindText Hard = ''hard''"

text \<open>
  \<^verbatim>\<open>CodexExecResult\<close>. A field that is \<^verbatim>\<open>null\<close> in the source is \<open>None\<close>. The exit code
  is an integer, the duration and the timeout are numbers of milliseconds.
\<close>

record CodexExecResult =
  exitCode :: "int option"
  signal :: "string option"
  durationMs :: nat
  logFile :: string
  timedOut :: bool
  timeoutMs :: "nat option"
  timeoutKind :: "TimeoutKind option"
  parsedResult :: "ParsedTaskResult option"

record ExecutionOutcome =
  oc_success :: bool
  oc_note :: "string option"

text \<open>
  \<^verbatim>\<open>combineNotes(...notes)\<close>: the notes that are given are trimmed, the empty ones are
  dropped, and the rest is joined with \<^verbatim>\<open>' | '\<close>; \<^verbatim>\<open>undefined\<close> when nothing is left.
\<close>

definition combineNotes :: "string option list \<Rightarrow> string option" where
  "combineNotes ns =
     (let merged = filter (\<lambda>n. n \<noteq> []) (map trim (List.map_filter id ns)) in
      if length merged = 0 then None else Some (join '' | '' merged))"

definition resolveExecutionOutcome :: "CodexExecResult \<Rightarrow> ExecutionOutcome" where
  "resolveExecutionOutcome execResult =
     (case parsedResult execResult of
        Some parsed \<Rightarrow>
          if pr_status parsed = StatusDone \<and> pr_validation parsed \<noteq> Fail then
            \<lparr>oc_success = True,
             oc_note = combineNotes
               [Some (''parsed_result status='' @ resultStatusText (pr_status parsed)
                      @ '' validation='' @ validationText (pr_validation parsed)),
                if pr_summary parsed \<noteq> [] then Some (''summary: '' @ pr_summary parsed)
                else None]\<rparr>
          else
            \<lparr>oc_success = False,
             oc_note = combineNotes
               [Some (''parsed_result status='' @ resultStatusText (pr_status parsed)
                      @ '' validation='' @ validationText (pr_validation parsed)),
                if pr_summary parsed \<noteq> [] then Some (''summary: '' @ pr_summary parsed)
                else None]\<rparr>
      | None \<Rightarrow>
          if timedOut execResult then
            (let kind = (case timeoutKind execResult of
                           Some k \<Rightarrow> timeoutKindText k | None \<Rightarrow> ''unknown'');
                 msText = (case timeoutMs execResult of
                             Some ms \<Rightarrow> nat_to_string ms @ ''ms''
                           | None \<Rightarrow> ''unknown duration'')
             in \<lparr>oc_success = False,
                 oc_note = Some (''executor '' @ kind @ '' timeout after '' @ msText)\<rparr>)
          else if exitCode execResult = Some 0 then
            \<lparr>oc_success = True,
             oc_note = Some ''exit_code_fallback success (missing TM_RESULT)''\<rparr>
          else
            \<lparr>oc_success = False,
             oc_note = Some (''executor failed exitCode=''
                          @ (case exitCode execResult of
                               Some c \<Rightarrow> int_to_string c | None \<Rightarrow> ''null'')
                          @ '' signal=''
                          @ (case signal execResult of Some sg \<Rightarrow> sg | None \<Rightarrow> ''null''))\<rparr>)"

section \<open>The runner loop\<close>

datatype TaskStatus =
  Pending | InProgress | Done | Completed | Blocked | Cancelled | Deferred | Review

text \<open>
  A task of the task store, with the fields the runner reads. \<open>task_id\<close> is
  \<^verbatim>\<open>String(task.id)\<close>.
\<close>

record Task =
  task_id :: string
  task_title :: string
  task_status :: TaskStatus

text \<open>
  \<^verbatim>\<open>CheckpointState\<close>. \<open>attempts\<close> is the object \<^verbatim>\<open>Record<string, number>\<close>: the list of its
  properties in the order they were added, each with its count.
\<close>

record CheckpointState =
  updatedAt :: string
  attempts :: "(string \<times> nat) list"
  doneTaskIds :: "string list"
  blockedTaskIds :: "string list"
  lastTaskId :: "string option"

datatype LedgerStatus = LEDGER_IN_PROGRESS | LEDGER_DONE | LEDGER_FAILED | LEDGER_BLOCKED

record LedgerEntry =
  le_timestamp :: string
  le_taskId :: string
  le_title :: string
  le_attempt :: nat
  le_status :: LedgerStatus
  le_exitCode :: "int option"
  le_durationMs :: nat
  le_logFile :: string
  le_notes :: "string option"

text \<open>
  The options of \<^verbatim>\<open>run\<close> that the loop reads. An option that is \<^verbatim>\<open>undefined\<close> is \<open>None\<close>;
  the numbers are integers (the command line parses them with \<^verbatim>\<open>parseInt\<close>).
\<close>

record SkillRunOptions =
  tag :: "string option"
  maxRetries :: "int option"
  maxTasks :: "int option"
  continueOnFailure :: "bool option"

datatype FinalStatus = all_complete | partial | error

record SkillRunResult =
  res_completedTaskIds :: "string list"
  res_blockedTaskIds :: "string list"
  res_attempts :: "(string \<times> nat) list"
  res_totalRuns :: nat
  res_finalStatus :: FinalStatus
  res_errorMessage :: "string option"

text \<open>
  What the loop does to the world outside its variables, in the order it does it: the
  calls of \<^verbatim>\<open>tasksDomain.updateStatus\<close>, the lines appended to the ledger, the
  checkpoints written by \<^verbatim>\<open>saveCheckpoint\<close> and the calls of \<^verbatim>\<open>syncTodoAndMap\<close> with the
  checkpoint they project. The optional callbacks only observe and are left out.
\<close>

datatype Effect =
  UpdateStatus string TaskStatus
| AppendLedger LedgerEntry
| SaveCheckpoint CheckpointState
| SyncTodoAndMap CheckpointState

text \<open>
  What the world outside answers in one iteration: the task that
  \<^verbatim>\<open>tasksDomain.getNext\<close> returns, the result of \<^verbatim>\<open>executeCodex\<close> on it, and the two
  readings of the clock (\<^verbatim>\<open>nowIso()\<close> for the ledger entry and in \<^verbatim>\<open>saveCheckpoint\<close>).
  A run is driven by the list of these answers; after the last one \<^verbatim>\<open>getNext\<close> returns
  no task.
\<close>

record Iteration =
  it_task :: Task
  it_exec :: CodexExecResult
  it_ledgerTime :: string
  it_saveTime :: string

text \<open>The variables of \<^verbatim>\<open>run\<close> that the loop changes, and the effects so far.\<close>

record LoopState =
  checkpoint :: CheckpointState
  totalRuns :: nat
  effects :: "Effect list"

text \<open>\<^verbatim>\<open>pushUnique(items, value)\<close>.\<close>

definition pushUnique :: "string list \<Rightarrow> string \<Rightarrow> string list" where
  "pushUnique items v = (if v \<in> set items then items else items @ [v])"

text \<open>\<^verbatim>\<open>checkpoint.attempts[taskId] ?? 0\<close>.\<close>

definition attemptsOf :: "CheckpointState \<Rightarrow> string \<Rightarrow> nat" where
  "attemptsOf cp taskId = (case map_of (attempts cp) taskId of None \<Rightarrow> 0 | Some n \<Rightarrow> n)"

text \<open>
  \<^verbatim>\<open>obj[key] = value\<close> on the list of properties: an existing property keeps its place, a
  new one is added at the end.
\<close>

fun setProperty :: "(string \<times> 'v) list \<Rightarrow> string \<Rightarrow> 'v \<Rightarrow> (string \<times> 'v) list" where
  "setProperty [] k v = [(k, v)]"
| "setProperty ((k', v') # ps) k v =
     (if k' = k then (k, v) # ps else (k', v') # setProperty ps k v)"

text \<open>
  \<^verbatim>\<open>saveCheckpoint\<close> as the loop sees it: the time stamp of the checkpoint is set and the
  checkpoint is written. The bytes written are \<open>saveCheckpoint\<close> of the checkpoint store
  below.
\<close>

definition persist :: "string \<Rightarrow> LoopState \<Rightarrow> LoopState" where
  "persist now st =
     (let cp = (checkpoint st)\<lparr>updatedAt := now\<rparr> in
      st\<lparr>checkpoint := cp, effects := effects st @ [SaveCheckpoint cp, SyncTodoAndMap cp]\<rparr>)"

text \<open>
  \<^verbatim>\<open>Math.max(0, options.maxRetries ?? MAX_RETRIES_DEFAULT)\<close>, line 232.
\<close>

definition MAX_RETRIES_DEFAULT :: int where
  "MAX_RETRIES_DEFAULT = 3"

definition effectiveMaxRetries :: "SkillRunOptions \<Rightarrow> int" where
  "effectiveMaxRetries options =
     max 0 (case maxRetries options of None \<Rightarrow> MAX_RETRIES_DEFAULT | Some n \<Rightarrow> n)"

text \<open>
  \<^verbatim>\<open>options.maxTasks && totalRuns >= options.maxTasks\<close>, line 242: a limit that is
  \<^verbatim>\<open>undefined\<close> or 0 is falsy.
\<close>

definition maxTasksReached :: "SkillRunOptions \<Rightarrow> nat \<Rightarrow> bool" where
  "maxTasksReached options runs =
     (case maxTasks options of None \<Rightarrow> False | Some n \<Rightarrow> n \<noteq> 0 \<and> int runs \<ge> n)"

text \<open>
  Lines 246 to 311, the body of the loop from the attempt count to the ledger entry. The
  result says whether the attempt failed.
\<close>

definition attemptTask :: "int \<Rightarrow> Iteration \<Rightarrow> LoopState \<Rightarrow> LoopState \<times> bool" where
  "attemptTask maxRetries' ev st =
     (let nextTask = it_task ev;
          cp = checkpoint st;
          taskId = task_id nextTask;
          attempt = attemptsOf cp taskId + 1;
          cp = cp\<lparr>attempts := setProperty (attempts cp) taskId attempt,
                  lastTaskId := Some taskId\<rparr>;
          eff = effects st @ [UpdateStatus taskId InProgress];
          execResult = it_exec ev;
          runs = totalRuns st + 1;
          outcome = resolveExecutionOutcome execResult
      in if oc_success outcome then
           (let eff = eff @ [UpdateStatus taskId Done];
                cp = cp\<lparr>doneTaskIds := pushUnique (doneTaskIds cp) taskId\<rparr>;
                cp = cp\<lparr>blockedTaskIds := filter (\<lambda>i. i \<noteq> taskId) (blockedTaskIds cp)\<rparr>;
                eff = eff @ [AppendLedger
                  \<lparr>le_timestamp = it_ledgerTime ev, le_taskId = taskId,
                   le_title = task_title nextTask, le_attempt = attempt,
                   le_status = LEDGER_DONE, le_exitCode = exitCode execResult,
                   le_durationMs = durationMs execResult, le_logFile = logFile execResult,
                   le_notes = oc_note outcome\<rparr>]
            in (\<lparr>checkpoint = cp, totalRuns = runs, effects = eff\<rparr>, False))
         else
           (let reachedLimit = (int attempt > maxRetries');
                eff = eff @ [UpdateStatus taskId (if reachedLimit then Blocked else Pending)];
                cp = (if reachedLimit
                      then cp\<lparr>blockedTaskIds := pushUnique (blockedTaskIds cp) taskId\<rparr>
                      else cp);
                retryNote = (if reachedLimit
                             then ''max retries reached: '' @ int_to_string maxRetries'
                             else ''will retry'');
                eff = eff @ [AppendLedger
                  \<lparr>le_timestamp = it_ledgerTime ev, le_taskId = taskId,
                   le_title = task_title nextTask, le_attempt = attempt,
                   le_status = (if reachedLimit then LEDGER_BLOCKED else LEDGER_FAILED),
                   le_exitCode = exitCode execResult,
                   le_durationMs = durationMs execResult, le_logFile = logFile execResult,
                   le_notes = combineNotes [oc_note outcome, Some retryNote]\<rparr>]
            in (\<lparr>checkpoint = cp, totalRuns = runs, effects = eff\<rparr>, True)))"

text \<open>Why the loop was left. The source does not record it; the model does.\<close>

datatype Stop = NoNextTask | MaxTasksReached | FailureStop

record RunOutcome =
  ro_result :: SkillRunResult
  ro_state :: LoopState
  ro_stop :: Stop

text \<open>Lines 330 to 338: what \<^verbatim>\<open>run\<close> does and returns after the loop.\<close>

definition afterLoop :: "string \<Rightarrow> Stop \<Rightarrow> LoopState \<Rightarrow> RunOutcome" where
  "afterLoop now why st =
     (let st = persist now st; cp = checkpoint st in
      \<lparr>ro_result =
         \<lparr>res_completedTaskIds = doneTaskIds cp, res_blockedTaskIds = blockedTaskIds cp,
          res_attempts = attempts cp, res_totalRuns = totalRuns st,
          res_finalStatus = (if length (blockedTaskIds cp) > 0 then partial else all_complete),
          res_errorMessage = None\<rparr>,
       ro_state = st, ro_stop = why\<rparr>)"

text \<open>
  The \<^verbatim>\<open>while (true)\<close> loop of lines 237 to 328 on the answers \<open>evs\<close> of the task store
  and the executor. \<open>finalTime\<close> is the clock at the \<^verbatim>\<open>saveCheckpoint\<close> after the loop.
\<close>

fun runLoop ::
  "SkillRunOptions \<Rightarrow> int \<Rightarrow> string \<Rightarrow> Iteration list \<Rightarrow> LoopState \<Rightarrow> RunOutcome" where
  "runLoop options maxRetries' finalTime [] st = afterLoop finalTime NoNextTask st"
| "runLoop options maxRetries' finalTime (ev # evs) st =
     (if maxTasksReached options (totalRuns st) then afterLoop finalTime MaxTasksReached st
      else
        (case attemptTask maxRetries' ev st of
           (st, failed) \<Rightarrow>
             if failed \<and> \<not> (continueOnFailure options = Some True) then
               (let st = persist (it_saveTime ev) st; cp = checkpoint st in
                \<lparr>ro_result =
                   \<lparr>res_completedTaskIds = doneTaskIds cp,
                    res_blockedTaskIds = blockedTaskIds cp,
                    res_attempts = attempts cp, res_totalRuns = totalRuns st,
                    res_finalStatus = error,
                    res_errorMessage = Some (''Task '' @ task_id (it_task ev)
                       @ '' failed and continueOnFailure=false'')\<rparr>,
                 ro_state = st, ro_stop = FailureStop\<rparr>)
             else runLoop options maxRetries' finalTime evs (persist (it_saveTime ev) st)))"

text \<open>
  \<^verbatim>\<open>run\<close> from line 232 on, for the checkpoint that \<^verbatim>\<open>loadCheckpoint\<close> returned: the
  retry limit, the first projection of the plan, the loop.
\<close>

definition run ::
  "SkillRunOptions \<Rightarrow> CheckpointState \<Rightarrow> Iteration list \<Rightarrow> string \<Rightarrow> RunOutcome" where
  "run options cp evs finalTime =
     runLoop options (effectiveMaxRetries options) finalTime evs
       \<lparr>checkpoint = cp, totalRuns = 0, effects = [SyncTodoAndMap cp]\<rparr>"

text \<open>The checkpoint of a session that has no checkpoint file yet (line 961).\<close>

definition freshCheckpoint :: "string \<Rightarrow> CheckpointState" where
  "freshCheckpoint now =
     \<lparr>updatedAt = now, attempts = [], doneTaskIds = [], blockedTaskIds = [],
      lastTaskId = None\<rparr>"


text \<open>
  Two bounds on the attempt counts of a checkpoint: every task that is neither done nor
  blocked has at most \<open>m\<close> attempts; every task has at most \<open>m + 1\<close> attempts.
\<close>

definition openBounded :: "int \<Rightarrow> CheckpointState \<Rightarrow> bool" where
  "openBounded m cp =
     (\<forall>tid. tid \<notin> set (doneTaskIds cp) \<and> tid \<notin> set (blockedTaskIds cp)
        \<longrightarrow> int (attemptsOf cp tid) \<le> m)"

definition allBounded :: "int \<Rightarrow> CheckpointState \<Rightarrow> bool" where
  "allBounded m cp = (\<forall>tid. int (attemptsOf cp tid) \<le> m + 1)"

section \<open>The assets of a session\<close>

text \<open>
  A path is the list of the names from the project root down to the file, the form in
  which \<^verbatim>\<open>path.join\<close> and \<^verbatim>\<open>path.resolve\<close> on the project root leave a path below the
  root; \<^verbatim>\<open>path.relative(projectRoot, p)\<close> joins the names with a slash. The file system is
  the map from the paths of the regular files to their contents. Directories are not
  modelled: \<^verbatim>\<open>mkdir\<close> changes no file, and the writes of the source are taken not to
  fail.
\<close>

type_synonym path = "string list"

type_synonym filesystem = "path \<rightharpoonup> string"

definition relativePath :: "path \<Rightarrow> string" where
  "relativePath p = join ''/'' p"

definition fileExists :: "filesystem \<Rightarrow> path \<Rightarrow> bool" where
  "fileExists files p = (files p \<noteq> None)"

definition AGENTS_MARK_START :: string where
  "AGENTS_MARK_START = ''<!-- TM-LONGRUN-START -->''"

definition AGENTS_MARK_END :: string where
  "AGENTS_MARK_END = ''<!-- TM-LONGRUN-END -->''"

text \<open>The constant \<^verbatim>\<open>block\<close> of \<^verbatim>\<open>ensureAgentsHook\<close>, line 650.\<close>

definition hookBlock :: string where
  "hookBlock =
     AGENTS_MARK_START @
     ''\<newline>'' @
     ''## Taskmaster Longrun Hook\<newline>'' @
     ''When implementation starts, load AGENTS first, then load @.codex/skills/taskmaster-longrun/SKILL.md, then execute one Taskmaster task per Codex run.\<newline>'' @
     AGENTS_MARK_END"

definition SKILL_FRONTMATTER :: string where
  "SKILL_FRONTMATTER =
     ''---\<newline>'' @
     ''name: taskmaster-longrun\<newline>'' @
     ''description: Execute one Taskmaster task per Codex run with checkpoint and ledger discipline.\<newline>'' @
     ''---''"

definition DEFAULT_SKILL_BODY :: string where
  "DEFAULT_SKILL_BODY =
     ''# Taskmaster Longrun Skill\<newline>'' @
     ''\<newline>'' @
     ''## Goal\<newline>'' @
     ''Use Taskmaster as the source of truth and execute one task at a time with Codex CLI.\<newline>'' @
     ''\<newline>'' @
     ''## Rules\<newline>'' @
     ''1. Task structure/dependencies come from Taskmaster only.\<newline>'' @
     ''2. CSV is runtime ledger, not task source.\<newline>'' @
     ''3. Execute only current task; do not auto-pick next inside one Codex call.\<newline>'' @
     ''4. Return concise implementation summary and test evidence.\<newline>''"

definition DEFAULT_SKILL_TEMPLATE :: string where
  "DEFAULT_SKILL_TEMPLATE = SKILL_FRONTMATTER @ [LF, LF] @ DEFAULT_SKILL_BODY"

definition DEFAULT_PROGRESS_TEMPLATE :: string where
  "DEFAULT_PROGRESS_TEMPLATE =
     ''# PROGRESS\<newline>'' @
     ''\<newline>'' @
     ''Decision log and audit trail for this longrun session.\<newline>'' @
     ''\<newline>'' @
     ''## Entries\<newline>''"

definition DEFAULT_SPEC_TEMPLATE :: string where
  "DEFAULT_SPEC_TEMPLATE =
     ''# SPEC\<newline>'' @
     ''\<newline>'' @
     ''Frozen goal for this longrun session. It will be refreshed from Taskmaster tasks when run starts.\<newline>''"

definition UPSTREAM_TASKMASTER_SKILL_URL :: string where
  "UPSTREAM_TASKMASTER_SKILL_URL =
     ''https://raw.githubusercontent.com/lili-luo/aicoding-cookbook/refs/heads/main/skills/codex/taskmaster/SKILL.md''"

definition UPSTREAM_CODEX_AGENTS_URL :: string where
  "UPSTREAM_CODEX_AGENTS_URL =
     ''https://raw.githubusercontent.com/lili-luo/aicoding-cookbook/refs/heads/main/skills/codex/AGENTS.md''"

definition FALLBACK_UPSTREAM_AGENTS :: string where
  "FALLBACK_UPSTREAM_AGENTS =
     ''# Global Agent Rules\<newline>'' @
     ''\<newline>'' @
     ''## Language\<newline>'' @
     ''\<newline>'' @
     ''Default to Chinese in user-facing replies unless the user explicitly requests another language.\<newline>''"

definition SKILL_INTEGRATION_MARK_START :: string where
  "SKILL_INTEGRATION_MARK_START = ''<!-- TM-INTEGRATION-START -->''"

definition SKILL_INTEGRATION_MARK_END :: string where
  "SKILL_INTEGRATION_MARK_END = ''<!-- TM-INTEGRATION-END -->''"

definition SKILL_INTEGRATION_ADDENDUM :: string where
  "SKILL_INTEGRATION_ADDENDUM =
     SKILL_INTEGRATION_MARK_START @
     ''\<newline>'' @
     ''## Taskmaster Integration Addendum\<newline>'' @
     ''\<newline>'' @
     ''This addendum defines how this upstream skill is integrated with Task Master CLI:\<newline>'' @
     ''\<newline>'' @
     ''1. Task source of truth is Taskmaster tasks data.\<newline>'' @
     ''2. Execute exactly one Taskmaster task per `codex exec` run.\<newline>'' @
     ''3. Load order for prompt context:\<newline>'' @
     ''   - project AGENTS.md/agent.md\<newline>'' @
     ''   - .codex/skills/taskmaster-longrun/AGENTS.md\<newline>'' @
     ''   - .codex/skills/taskmaster-longrun/SKILL.md\<newline>'' @
     ''4. Runtime artifacts are managed by the runner:\<newline>'' @
     ''   - LITE mode: project-root TODO.csv\<newline>'' @
     ''   - FULL mode: .codex-tasks/taskmaster-longrun/{SPEC.md,TODO.csv,PROGRESS.md}\<newline>'' @
     ''5. Model output may update CSV/PROGRESS artifacts, but must not mutate Taskmaster status.\<newline>'' @
     ''6. Runner is the only status writer and parses machine-readable result:\<newline>'' @
     ''   - success => done\<newline>'' @
     ''   - retry exhausted => blocked\<newline>'' @
     SKILL_INTEGRATION_MARK_END"

datatype AgentsHookMode = HookAppend | HookSkip | HookFail

datatype SkillRunMode = ModeLite | ModeFull | ModeAuto

text \<open>
  \<^verbatim>\<open>SkillRunInitOptions\<close>. A path option is given as the path that \<^verbatim>\<open>path.resolve\<close> makes
  of it.
\<close>

record SkillRunInitOptions =
  agentsPath :: "path option"
  agentsMode :: "AgentsHookMode option"
  mode :: "SkillRunMode option"
  skillPath :: "path option"
  sessionDir :: "path option"

record SkillRunPaths =
  p_agentsPath :: path
  p_skillAgentsPath :: path
  p_skillPath :: path
  p_sessionDir :: path
  p_specPath :: path
  p_progressPath :: path
  p_todoCsvPath :: path
  p_mapPath :: path
  p_checkpointPath :: path
  p_ledgerPath :: path
  p_logsDir :: path

record SkillRunInitResult =
  paths :: SkillRunPaths
  created :: "string list"
  updated :: "string list"
  skipped :: "string list"

text \<open>
  The errors that \<^verbatim>\<open>initAssets\<close> throws itself, each with its message. An operation on
  the files returns its result or its error, and the files as it leaves them.
\<close>

datatype InitError = InvalidHookMarkers string | HookMissing string

definition resolveMode :: "SkillRunMode option \<Rightarrow> SkillRunMode" where
  "resolveMode m = (if m = Some ModeLite \<or> m = Some ModeFull then the m else ModeFull)"

definition resolveDefaultAgentsPath :: "filesystem \<Rightarrow> path" where
  "resolveDefaultAgentsPath files =
     (if fileExists files [''AGENTS.md''] then [''AGENTS.md'']
      else if fileExists files [''agent.md''] then [''agent.md'']
      else [''AGENTS.md''])"

definition resolvePaths :: "filesystem \<Rightarrow> SkillRunInitOptions \<Rightarrow> SkillRunPaths" where
  "resolvePaths files options =
     (let mode' = resolveMode (mode options);
          sessionDir' = (case sessionDir options of Some d \<Rightarrow> d
                         | None \<Rightarrow> [''.codex-tasks'', ''taskmaster-longrun'']);
          agentsPath' = (case agentsPath options of Some a \<Rightarrow> a
                         | None \<Rightarrow> resolveDefaultAgentsPath files);
          skillPath' = (case skillPath options of Some s \<Rightarrow> s
                        | None \<Rightarrow> [''.codex'', ''skills'', ''taskmaster-longrun'', ''SKILL.md''])
      in \<lparr>p_agentsPath = agentsPath',
          p_skillAgentsPath = butlast skillPath' @ [''AGENTS.md''],
          p_skillPath = skillPath',
          p_sessionDir = sessionDir',
          p_specPath = sessionDir' @ [''SPEC.md''],
          p_progressPath = sessionDir' @ [''PROGRESS.md''],
          p_todoCsvPath = (if mode' = ModeLite then [''TODO.csv'']
                           else sessionDir' @ [''TODO.csv'']),
          p_mapPath = sessionDir' @ [''taskmaster-map.json''],
          p_checkpointPath = sessionDir' @ [''checkpoint.json''],
          p_ledgerPath = sessionDir' @ [''ledger.jsonl''],
          p_logsDir = sessionDir' @ [''logs'']\<rparr>)"

text \<open>
  \<^verbatim>\<open>ensureAgentsHook\<close>, lines 645 to 679.
\<close>

definition ensureAgentsHook ::
  "path \<Rightarrow> SkillRunInitResult \<Rightarrow> AgentsHookMode \<Rightarrow> filesystem
     \<Rightarrow> (InitError + SkillRunInitResult) \<times> filesystem" where
  "ensureAgentsHook filePath result hookMode files =
     (case files filePath of
        None \<Rightarrow>
          (Inr (result\<lparr>created := created result @ [relativePath filePath]\<rparr>),
           files(filePath \<mapsto> hookBlock @ [LF]))
      | Some content \<Rightarrow>
          (let hasStart = str_includes content AGENTS_MARK_START;
               hasEnd = str_includes content AGENTS_MARK_END
           in if hasStart \<and> hasEnd then
                (Inr (result\<lparr>skipped := skipped result @ [relativePath filePath]\<rparr>), files)
              else if hasStart \<noteq> hasEnd then
                (Inl (InvalidHookMarkers
                   (''Invalid AGENTS hook markers in '' @ relativePath filePath)), files)
              else if hookMode = HookSkip then
                (Inr (result\<lparr>skipped := skipped result @ [relativePath filePath]\<rparr>), files)
              else if hookMode = HookFail then
                (Inl (HookMissing
                   (''AGENTS hook missing in '' @ relativePath filePath
                    @ ''. Re-run with agentsMode=append to auto-insert.'')), files)
              else
                (Inr (result\<lparr>updated := updated result @ [relativePath filePath]\<rparr>),
                 files(filePath \<mapsto> trimEnd content @ [LF, LF] @ hookBlock @ [LF]))))"

text \<open>
  The source of the upstream templates: what \<^verbatim>\<open>fetch(url)\<close> delivers, \<open>None\<close> when remote
  fetching is disabled, when the request fails and when the response is not ok.
  \<^verbatim>\<open>loadRemoteTemplate\<close>, lines 817 to 836.
\<close>

type_synonym template_source = "string \<Rightarrow> string option"

definition loadRemoteTemplate :: "template_source \<Rightarrow> string \<Rightarrow> string \<Rightarrow> string" where
  "loadRemoteTemplate remote url fallback =
     (case remote url of
        None \<Rightarrow> fallback
      | Some text \<Rightarrow> if length (trim text) > 0 then text else fallback)"

text \<open>
  \<^verbatim>\<open>/^---\s*\n[\s\S]*?\n---\s*\n?/.test(content)\<close>, line 754. After the three dashes at
  the start, white space up to a line feed; then, anywhere after that line feed, a line
  feed followed by three dashes. The rest of the expression matches the empty string.
  \<open>skipToLineFeed\<close> walks over white space and returns what follows the first line
  feed: if the expression matches with a later line feed of the run of white space, it
  matches with the first one.
\<close>

function skipToLineFeed :: "string \<Rightarrow> string option" where
  "skipToLineFeed s =
     (case s of
        [] \<Rightarrow> None
      | c # rest \<Rightarrow>
          if c = LF then Some rest
          else if match_len js_whitespace s = 0 then None
          else skipToLineFeed (drop (match_len js_whitespace s) s))"
  by pat_completeness auto
termination
  by (relation "measure length") auto

declare skipToLineFeed.simps [simp del]

definition hasYamlFrontmatter :: "string \<Rightarrow> bool" where
  "hasYamlFrontmatter content =
     (startsWith content ''---'' \<and>
      (case skipToLineFeed (drop 3 content) of
         None \<Rightarrow> False
       | Some rest \<Rightarrow> str_includes rest ([LF] @ ''---'')))"

definition looksLikeUpstreamTaskmasterSkill :: "string \<Rightarrow> bool" where
  "looksLikeUpstreamTaskmasterSkill content =
     (hasYamlFrontmatter content \<and>
      str_includes content ''name: taskmaster'' \<and>
      str_includes content
        (''Taskmaster '' @
         [CHR 0xE2] @
         [CHR 0x80] @
         [CHR 0x94] @
         '' Unified Task Protocol''))"

definition hasSkillIntegrationAddon :: "string \<Rightarrow> bool" where
  "hasSkillIntegrationAddon content =
     (str_includes content SKILL_INTEGRATION_MARK_START \<and>
      str_includes content SKILL_INTEGRATION_MARK_END)"

text \<open>\<^verbatim>\<open>removeMarkedBlock\<close>, lines 781 to 797.\<close>

definition removeMarkedBlock :: "string \<Rightarrow> string \<Rightarrow> string \<Rightarrow> string" where
  "removeMarkedBlock content start end' =
     (case (indexOf content start, indexOf content end') of
        (Some startIndex, Some endIndex) \<Rightarrow>
          if endIndex < startIndex then content
          else
            (let blockEnd = endIndex + length end';
                 prefix' = trimEnd (take startIndex content);
                 suffix' = trimStart (drop blockEnd content)
             in if prefix' = [] then suffix'
                else if suffix' = [] then prefix' @ [LF]
                else prefix' @ [LF, LF] @ suffix')
      | _ \<Rightarrow> content)"

definition mergeSkillWithIntegrationAddon :: "string \<Rightarrow> string" where
  "mergeSkillWithIntegrationAddon content =
     (let withoutAddon =
        removeMarkedBlock content SKILL_INTEGRATION_MARK_START SKILL_INTEGRATION_MARK_END
      in trimEnd withoutAddon @ [LF, LF] @ SKILL_INTEGRATION_ADDENDUM @ [LF])"

definition looksLikeUpstreamAgents :: "string \<Rightarrow> bool" where
  "looksLikeUpstreamAgents content = str_includes content ''# Global Agent Rules''"

text \<open>
  \<^verbatim>\<open>ensureSkillTemplate\<close>, lines 681 to 705. \<^verbatim>\<open>!existing\<close> holds of a file that is
  missing and of one that is empty.
\<close>

definition ensureSkillTemplate ::
  "template_source \<Rightarrow> path \<Rightarrow> SkillRunInitResult \<Rightarrow> filesystem
     \<Rightarrow> SkillRunInitResult \<times> filesystem" where
  "ensureSkillTemplate remote filePath result files =
     (let existing = files filePath in
      if existing = None \<or> existing = Some [] then
        (let remote' = loadRemoteTemplate remote UPSTREAM_TASKMASTER_SKILL_URL
                         DEFAULT_SKILL_TEMPLATE
         in (result\<lparr>created := created result @ [relativePath filePath]\<rparr>,
             files(filePath \<mapsto> mergeSkillWithIntegrationAddon remote')))
      else if looksLikeUpstreamTaskmasterSkill (the existing)
              \<and> hasSkillIntegrationAddon (the existing) then
        (result\<lparr>skipped := skipped result @ [relativePath filePath]\<rparr>, files)
      else
        (let remote' = loadRemoteTemplate remote UPSTREAM_TASKMASTER_SKILL_URL
                         DEFAULT_SKILL_TEMPLATE
         in (result\<lparr>updated := updated result @ [relativePath filePath]\<rparr>,
             files(filePath \<mapsto> mergeSkillWithIntegrationAddon remote'))))"

text \<open>\<^verbatim>\<open>ensureUpstreamAgentsTemplate\<close>, lines 707 to 726.\<close>

definition ensureUpstreamAgentsTemplate ::
  "template_source \<Rightarrow> path \<Rightarrow> SkillRunInitResult \<Rightarrow> filesystem
     \<Rightarrow> SkillRunInitResult \<times> filesystem" where
  "ensureUpstreamAgentsTemplate remote filePath result files =
     (let existing = files filePath in
      if existing \<noteq> None \<and> existing \<noteq> Some [] \<and> looksLikeUpstreamAgents (the existing) then
        (result\<lparr>skipped := skipped result @ [relativePath filePath]\<rparr>, files)
      else
        (let remote' = loadRemoteTemplate remote UPSTREAM_CODEX_AGENTS_URL
                         FALLBACK_UPSTREAM_AGENTS;
             files' = files(filePath \<mapsto> remote')
         in if existing \<noteq> None \<and> existing \<noteq> Some [] then
              (result\<lparr>updated := updated result @ [relativePath filePath]\<rparr>, files')
            else
              (result\<lparr>created := created result @ [relativePath filePath]\<rparr>, files')))"

text \<open>\<^verbatim>\<open>ensureSpecTemplate\<close> and \<^verbatim>\<open>ensureProgressTemplate\<close>, lines 728 to 751.\<close>

definition ensureSpecTemplate ::
  "path \<Rightarrow> SkillRunInitResult \<Rightarrow> filesystem \<Rightarrow> SkillRunInitResult \<times> filesystem" where
  "ensureSpecTemplate filePath result files =
     (if fileExists files filePath then
        (result\<lparr>skipped := skipped result @ [relativePath filePath]\<rparr>, files)
      else
        (result\<lparr>created := created result @ [relativePath filePath]\<rparr>,
         files(filePath \<mapsto> DEFAULT_SPEC_TEMPLATE)))"

definition ensureProgressTemplate ::
  "path \<Rightarrow> SkillRunInitResult \<Rightarrow> filesystem \<Rightarrow> SkillRunInitResult \<times> filesystem" where
  "ensureProgressTemplate filePath result files =
     (if fileExists files filePath then
        (result\<lparr>skipped := skipped result @ [relativePath filePath]\<rparr>, files)
      else
        (result\<lparr>created := created result @ [relativePath filePath]\<rparr>,
         files(filePath \<mapsto> DEFAULT_PROGRESS_TEMPLATE)))"

text \<open>
  \<^verbatim>\<open>ensureCodexTasksGitignore\<close>, lines 838 to 853. Both tests read the content as it
  was when the function started; \<^verbatim>\<open>appendFile\<close> adds to the file as it is.
\<close>

definition gitignorePath :: path where
  "gitignorePath = [''.codex-tasks'', ''.gitignore'']"

definition appendFile :: "path \<Rightarrow> string \<Rightarrow> filesystem \<Rightarrow> filesystem" where
  "appendFile p text files =
     files(p \<mapsto> (case files p of None \<Rightarrow> text | Some old \<Rightarrow> old @ text))"

definition ensureCodexTasksGitignore :: "filesystem \<Rightarrow> filesystem" where
  "ensureCodexTasksGitignore files =
     (case files gitignorePath of
        None \<Rightarrow> files(gitignorePath \<mapsto> ''*'' @ [LF] @ ''!.gitignore'' @ [LF])
      | Some content \<Rightarrow>
          (let files = (if \<not> str_includes content ''*''
                        then appendFile gitignorePath ([LF] @ ''*'' @ [LF]) files
                        else files);
               files = (if \<not> str_includes content ''!.gitignore''
                        then appendFile gitignorePath (''!.gitignore'' @ [LF]) files
                        else files)
           in files))"

text \<open>
  \<^verbatim>\<open>initAssets\<close>, lines 197 to 224. The three calls of \<^verbatim>\<open>mkdir\<close> change no file.
\<close>

definition initAssets ::
  "template_source \<Rightarrow> SkillRunInitOptions \<Rightarrow> filesystem
     \<Rightarrow> (InitError + SkillRunInitResult) \<times> filesystem" where
  "initAssets remote options files =
     (let paths' = resolvePaths files options;
          mode' = resolveMode (mode options);
          files = ensureCodexTasksGitignore files;
          result = \<lparr>paths = paths', created = [], updated = [], skipped = []\<rparr>
      in case ensureAgentsHook (p_agentsPath paths') result
                (case agentsMode options of None \<Rightarrow> HookAppend | Some m \<Rightarrow> m) files of
           (Inl err, files) \<Rightarrow> (Inl err, files)
         | (Inr result, files) \<Rightarrow>
             (case ensureUpstreamAgentsTemplate remote (p_skillAgentsPath paths') result files of
                (result, files) \<Rightarrow>
             (case ensureSkillTemplate remote (p_skillPath paths') result files of
                (result, files) \<Rightarrow>
             if mode' = ModeFull then
               (case ensureSpecTemplate (p_specPath paths') result files of
                  (result, files) \<Rightarrow>
               (case ensureProgressTemplate (p_progressPath paths') result files of
                  (result, files) \<Rightarrow> (Inr result, files)))
             else (Inr result, files))))"

text \<open>The number of places at which \<open>p\<close> occurs in \<open>s\<close>.\<close>

fun occurrences :: "string \<Rightarrow> string \<Rightarrow> nat" where
  "occurrences p [] = (if p = [] then 1 else 0)"
| "occurrences p (c # s) = (if startsWith (c # s) p then 1 else 0) + occurrences p s"

section \<open>Concrete inputs\<close>

text \<open>Executor results used to instantiate the theorems below.\<close>

definition exec_plain :: "int option \<Rightarrow> bool \<Rightarrow> CodexExecResult" where
  "exec_plain code timeout =
     \<lparr>exitCode = code, signal = None, durationMs = 21, logFile = ''log.txt'',
      timedOut = timeout, timeoutMs = (if timeout then Some 5000 else None),
      timeoutKind = (if timeout then Some Hard else None), parsedResult = None\<rparr>"

definition parsed_done :: "Validation \<Rightarrow> ParsedTaskResult" where
  "parsed_done v =
     \<lparr>pr_status = StatusDone, pr_validation = v, pr_summary = ''ok'',
      pr_raw = ''{\"status\":\"done\"}''\<rparr>"

definition exec_parsed :: "int option \<Rightarrow> ParsedTaskResult \<Rightarrow> CodexExecResult" where
  "exec_parsed code p =
     \<lparr>exitCode = code, signal = None, durationMs = 21, logFile = ''log.txt'',
      timedOut = False, timeoutMs = None, timeoutKind = None, parsedResult = Some p\<rparr>"

text \<open>A task, options and the answers of one iteration.\<close>

definition task_one :: Task where
  "task_one = \<lparr>task_id = ''1'', task_title = ''demo'', task_status = Pending\<rparr>"

definition task_two :: Task where
  "task_two = \<lparr>task_id = ''2'', task_title = ''second'', task_status = Pending\<rparr>"

definition run_options :: "int option \<Rightarrow> int option \<Rightarrow> bool option \<Rightarrow> SkillRunOptions" where
  "run_options retries tasks continue =
     \<lparr>tag = None, maxRetries = retries, maxTasks = tasks, continueOnFailure = continue\<rparr>"

definition answer :: "Task \<Rightarrow> CodexExecResult \<Rightarrow> Iteration" where
  "answer t r = \<lparr>it_task = t, it_exec = r, it_ledgerTime = ''T1'', it_saveTime = ''T2''\<rparr>"

definition failing_answer :: Iteration where
  "failing_answer = answer task_one (exec_plain (Some 1) False)"

definition four_failures :: "Iteration list" where
  "four_failures = replicate 4 failing_answer"


text \<open>Options without any choice, and a project with one agent-context file.\<close>

definition default_init_options :: SkillRunInitOptions where
  "default_init_options =
     \<lparr>agentsPath = None, agentsMode = None, mode = None, skillPath = None,
      sessionDir = None\<rparr>"

definition agents_file :: "string \<Rightarrow> filesystem" where
  "agents_file content = [[''AGENTS.md''] \<mapsto> content]"

definition empty_result :: SkillRunInitResult where
  "empty_result =
     \<lparr>paths = resolvePaths Map.empty default_init_options, created = [], updated = [],
      skipped = []\<rparr>"

section \<open>Properties of the plan file\<close>

lemma startsWith_prefix: "startsWith s p = prefix p s"
  by (induction s p rule: startsWith.induct) auto

lemma find_Some_in_set: "find P xs = Some x \<Longrightarrow> x \<in> set xs \<and> P x"
  by (induction xs) (auto split: if_splits)

lemma match_len_zero_iff:
  "[] \<notin> set ws \<Longrightarrow> (match_len ws s = 0) = (\<forall>w \<in> set ws. \<not> startsWith s w)"
  by (auto simp: match_len_def find_None_iff split: option.splits dest: find_Some_in_set)

lemma match_len_strip_leading: "match_len ws (strip_leading ws s) = 0"
proof (induction ws s rule: strip_leading.induct)
  case (1 ws s)
  show ?case
  proof (cases "match_len ws s = 0 \<or> s = []")
    case True
    then have "strip_leading ws s = s" by (simp add: strip_leading.simps)
    moreover have "match_len ws [] = 0"
      by (auto simp: match_len_def startsWith_prefix split: option.splits
            dest!: find_Some_in_set)
    ultimately show ?thesis using True by auto
  next
    case False
    then show ?thesis using 1 by (simp add: strip_leading.simps[of ws s])
  qed
qed

lemma strip_leading_drop: "\<exists>k. strip_leading ws s = drop k s"
proof (induction ws s rule: strip_leading.induct)
  case (1 ws s)
  show ?case
  proof (cases "match_len ws s = 0 \<or> s = []")
    case True
    then have "strip_leading ws s = drop 0 s" by (simp add: strip_leading.simps)
    then show ?thesis by blast
  next
    case False
    with 1 obtain k where
      "strip_leading ws (drop (match_len ws s) s) = drop k (drop (match_len ws s) s)"
      by blast
    with False have "strip_leading ws s = drop (k + match_len ws s) s"
      by (simp add: strip_leading.simps[of ws s] add.commute)
    then show ?thesis by blast
  qed
qed

lemma nonempty_ws: "[] \<notin> set js_whitespace" "[] \<notin> set (map rev js_whitespace)"
  by (simp_all add: js_whitespace_def)

lemma trimStart_no_space: "\<not> begins_with_space (trimStart s)"
  by (simp add: begins_with_space_def trimStart_def match_len_strip_leading)

lemma trimEnd_no_space: "\<not> ends_with_space (trimEnd s)"
  by (simp add: ends_with_space_def trimEnd_def match_len_strip_leading)

lemma trimEnd_prefix: "prefix (trimEnd s) s"
proof -
  obtain k where "strip_leading (map rev js_whitespace) (rev s) = drop k (rev s)"
    using strip_leading_drop by blast
  then have "trimEnd s = take (length s - k) s"
    by (simp add: trimEnd_def rev_drop)
  then show ?thesis by (simp add: take_is_prefix)
qed

lemma begins_with_space_prefix:
  assumes "begins_with_space t" "prefix t s"
  shows "begins_with_space s"
proof -
  from assms(1) obtain w where w: "w \<in> set js_whitespace" "startsWith t w"
    using match_len_zero_iff[OF nonempty_ws(1), of t] by (auto simp: begins_with_space_def)
  then have "prefix w s" using assms(2) by (auto simp: startsWith_prefix)
  with w(1) show ?thesis
    using match_len_zero_iff[OF nonempty_ws(1), of s]
    by (auto simp: begins_with_space_def startsWith_prefix)
qed

lemma trim_no_space: "\<not> begins_with_space (trim s)" "\<not> ends_with_space (trim s)"
  using begins_with_space_prefix[OF _ trimEnd_prefix, of "trimStart s"] trimStart_no_space
  by (auto simp: trim_def trimEnd_no_space)

lemma begins_with_space_first:
  assumes "begins_with_space (c # s)" shows "c \<in> set first_space_bytes"
proof -
  from assms obtain w where w: "w \<in> set js_whitespace" "startsWith (c # s) w"
    using match_len_zero_iff[OF nonempty_ws(1), of "c # s"] by (auto simp: begins_with_space_def)
  from w have "w \<noteq> []" using nonempty_ws(1) by auto
  with w(2) have "hd w = c" by (cases w) auto
  with w(1) have "c \<in> set (map hd js_whitespace)" by force
  then show ?thesis by (simp add: js_whitespace_def first_space_bytes_def)
qed

lemma ends_with_space_last:
  assumes "ends_with_space (s @ [c])" shows "c \<in> set last_space_bytes"
proof -
  from assms obtain w where w: "w \<in> set js_whitespace" "startsWith (c # rev s) (rev w)"
    using match_len_zero_iff[OF nonempty_ws(2), of "c # rev s"] by (auto simp: ends_with_space_def)
  from w have "w \<noteq> []" using nonempty_ws(1) by auto
  with w(2) have "last w = c" by (cases w rule: rev_cases) auto
  with w(1) have "c \<in> set (map last js_whitespace)" by force
  then show ?thesis by (auto simp: js_whitespace_def last_space_bytes_def)
qed

lemma quoted_no_space:
  "\<not> begins_with_space ([DQ] @ s @ [DQ])" "\<not> ends_with_space ([DQ] @ s @ [DQ])"
  using begins_with_space_first[of DQ "s @ [DQ]"] ends_with_space_last[of "[DQ] @ s" DQ]
  by (auto simp: first_space_bytes_def last_space_bytes_def)

lemma toCsvCell_no_space:
  "\<not> begins_with_space (toCsvCell v)" "\<not> ends_with_space (toCsvCell v)"
  by (simp_all add: toCsvCell_def Let_def quoted_no_space trim_no_space del: append.simps)

lemma digit_char_cases: "d < 10 \<Longrightarrow> digit_char d \<in> set ''0123456789''"
proof -
  assume "d < 10"
  then have "d \<in> {0,1,2,3,4,5,6,7,8,9}" by auto
  then show ?thesis by (auto simp: digit_char_def)
qed

lemma digit_char_no_space:
  "d < 10 \<Longrightarrow> \<not> begins_with_space (digit_char d # s)"
  "d < 10 \<Longrightarrow> \<not> ends_with_space (s @ [digit_char d])"
  using begins_with_space_first[of "digit_char d" s] ends_with_space_last[of s "digit_char d"]
    digit_char_cases[of d]
  by (auto simp: first_space_bytes_def last_space_bytes_def)

lemma nat_to_string_first: "\<exists>d s. d < 10 \<and> nat_to_string n = digit_char d # s"
proof (induction n rule: nat_to_string.induct)
  case (1 n)
  show ?case
  proof (cases "n < 10")
    case True
    then show ?thesis by (auto simp: nat_to_string.simps[of n])
  next
    case False
    with 1 obtain d s where "d < 10" "nat_to_string (n div 10) = digit_char d # s" by auto
    with False show ?thesis by (auto simp: nat_to_string.simps[of n])
  qed
qed

lemma nat_to_string_last: "\<exists>d s. d < 10 \<and> nat_to_string n = s @ [digit_char d]"
proof (cases "n < 10")
  case True
  then have "nat_to_string n = [] @ [digit_char n]" by (simp add: nat_to_string.simps[of n])
  with True show ?thesis by blast
next
  case False
  then have "nat_to_string n = nat_to_string (n div 10) @ [digit_char (n mod 10)]"
    by (simp add: nat_to_string.simps[of n])
  moreover have "n mod 10 < 10" by simp
  ultimately show ?thesis by blast
qed

lemma nat_to_string_no_space:
  "\<not> begins_with_space (nat_to_string n)" "\<not> ends_with_space (nat_to_string n)"
  using nat_to_string_first[of n] nat_to_string_last[of n] digit_char_no_space
  by metis+

lemma csvStatusText_no_space:
  "\<not> begins_with_space (csvStatusText st)" "\<not> ends_with_space (csvStatusText st)"
proof -
  obtain c s where a: "csvStatusText st = c # s" "c \<in> set ''TIDF''" by (cases st) auto
  obtain c' s' where b: "csvStatusText st = s' @ [c']" "c' \<in> set ''OSED''" 
    by (cases st) auto
  show "\<not> begins_with_space (csvStatusText st)" 
    using begins_with_space_first[of c s] a by (auto simp: first_space_bytes_def last_space_bytes_def)
  show "\<not> ends_with_space (csvStatusText st)" 
    using ends_with_space_last[of s' c'] b by (auto simp: first_space_bytes_def last_space_bytes_def)
qed

text \<open>
  C10. A cell made by \<open>toCsvCell\<close> is the value with its line breaks replaced by spaces,
  then trimmed, then quoted when it holds a quote or a comma. No cell of a line of the
  plan, in the full schema (\<open>csvCells\<close>) or in the lite one (\<open>liteCsvCells\<close>), begins or
  ends with white space.
\<close>

theorem plan_cells_trimmed:
  "toCsvCell v =
     (let normalized = trim (replace_newlines v) in
      if DQ \<in> set normalized \<or> CHR '','' \<in> set normalized
      then [DQ] @ double_quotes normalized @ [DQ] else normalized)
   \<and> (\<forall>c \<in> set (csvCells idx row) \<union> set (liteCsvCells idx row).
         \<not> begins_with_space c \<and> \<not> ends_with_space c)"
  by (simp add: csvCells_def liteCsvCells_def toCsvCell_no_space nat_to_string_no_space
        csvStatusText_no_space toCsvCell_def[symmetric] del: mapStatusLite.simps)

theorem plan_cells_trimmed_witness:
  "csvCells 0
     \<lparr>row_taskId = ''1.2'', row_title = ''  say \"hi\", twice'' @ [CR, LF] @ ''now '',
      row_status = IN_PROGRESS, row_acceptanceCriteria = '' unit tests '',
      row_validationCommand = ''echo SKIP'', row_completedAt = [], row_retryCount = 12,
      row_notes = [CHR 0xE2, CHR 0x80, CHR 0x83] @ ''x'' @ [CHR 0xC2, CHR 0xA0],
      row_dependencies = []\<rparr>
   = [''1'', ''\"[1.2]   say \"\"hi\"\", twice now\"'', ''IN_PROGRESS'', ''unit tests'',
      ''echo SKIP'', [], ''12'', ''x'']
   \<and> \<not> begins_with_space ''\"[1.2]   say \"\"hi\"\", twice now\"''
   \<and> \<not> ends_with_space ''unit tests''
   \<and> \<not> ends_with_space ''x''"
proof -
  let ?row = "\<lparr>row_taskId = ''1.2'', row_title = ''  say \"hi\", twice'' @ [CR, LF] @ ''now '',
      row_status = IN_PROGRESS, row_acceptanceCriteria = '' unit tests '',
      row_validationCommand = ''echo SKIP'', row_completedAt = [], row_retryCount = 12,
      row_notes = [CHR 0xE2, CHR 0x80, CHR 0x83] @ ''x'' @ [CHR 0xC2, CHR 0xA0],
      row_dependencies = []\<rparr>"
  have cells: "csvCells 0 ?row =
      [''1'', ''\"[1.2]   say \"\"hi\"\", twice now\"'', ''IN_PROGRESS'', ''unit tests'',
       ''echo SKIP'', [], ''12'', ''x'']"
    by code_simp
  from plan_cells_trimmed[of "[]" 0 ?row]
  have "\<forall>c \<in> set (csvCells 0 ?row). \<not> begins_with_space c \<and> \<not> ends_with_space c"
    by blast
  then show ?thesis unfolding cells by simp
qed

section \<open>Properties of the outcome resolver\<close>

lemma resolveExecutionOutcome_success:
  "oc_success (resolveExecutionOutcome r) =
     (case parsedResult r of
        Some p \<Rightarrow> pr_status p = StatusDone \<and> pr_validation p \<noteq> Fail
      | None \<Rightarrow> \<not> timedOut r \<and> exitCode r = Some 0)"
  unfolding resolveExecutionOutcome_def Let_def
  by (simp split: option.split del: append.simps add: if_distrib[of oc_success] cong: if_cong)

text \<open>
  C4. The decision table of the outcome resolver, for every result of an execution. With
  a parsed result the attempt succeeds exactly when its status is done and its validation
  is not fail; without one it succeeds exactly when the executor did not time out and the
  exit code is 0. So, without a parsed result a timeout is a failure whatever the exit
  code, and exit code 0 without a timeout is a success; a parsed result with status done
  is a failure when its validation is fail and a success otherwise; a parsed result with
  status failed is a failure; and without a parsed result and without a timeout an exit
  code other than 0, or none, is a failure.
\<close>

theorem resolveExecutionOutcome_table:
  "oc_success (resolveExecutionOutcome r) =
     (case parsedResult r of
        Some parsed \<Rightarrow> pr_status parsed = StatusDone \<and> pr_validation parsed \<noteq> Fail
      | None \<Rightarrow> \<not> timedOut r \<and> exitCode r = Some 0)
   \<and> (parsedResult r = None \<and> timedOut r \<longrightarrow> \<not> oc_success (resolveExecutionOutcome r))
   \<and> (parsedResult r = None \<and> \<not> timedOut r \<and> exitCode r = Some 0
        \<longrightarrow> oc_success (resolveExecutionOutcome r))
   \<and> (parsedResult r = None \<and> \<not> timedOut r \<and> exitCode r \<noteq> Some 0
        \<longrightarrow> \<not> oc_success (resolveExecutionOutcome r))
   \<and> (parsedResult r = Some p \<and> pr_status p = StatusDone \<and> pr_validation p = Fail
        \<longrightarrow> \<not> oc_success (resolveExecutionOutcome r))
   \<and> (parsedResult r = Some p \<and> pr_status p = StatusDone \<and> pr_validation p \<noteq> Fail
        \<longrightarrow> oc_success (resolveExecutionOutcome r))
   \<and> (parsedResult r = Some p \<and> pr_status p = StatusFailed
        \<longrightarrow> \<not> oc_success (resolveExecutionOutcome r))"
  by (simp add: resolveExecutionOutcome_success)

theorem resolveExecutionOutcome_table_witness:
  "\<not> oc_success (resolveExecutionOutcome (exec_plain (Some 0) True))
   \<and> oc_success (resolveExecutionOutcome (exec_plain (Some 0) False))
   \<and> \<not> oc_success (resolveExecutionOutcome (exec_plain (Some 1) False))
   \<and> \<not> oc_success (resolveExecutionOutcome (exec_plain None False))
   \<and> \<not> oc_success (resolveExecutionOutcome (exec_parsed (Some 0) (parsed_done Fail)))
   \<and> oc_success (resolveExecutionOutcome (exec_parsed (Some 1) (parsed_done Unknown)))
   \<and> \<not> oc_success (resolveExecutionOutcome
          (exec_parsed (Some 0) ((parsed_done Pass)\<lparr>pr_status := StatusFailed\<rparr>)))"
  using resolveExecutionOutcome_table[of "exec_plain (Some 0) True" "parsed_done Fail"]
    resolveExecutionOutcome_table[of "exec_plain (Some 0) False" "parsed_done Fail"]
    resolveExecutionOutcome_table[of "exec_plain (Some 1) False" "parsed_done Fail"]
    resolveExecutionOutcome_table[of "exec_plain None False" "parsed_done Fail"]
    resolveExecutionOutcome_table[of "exec_parsed (Some 0) (parsed_done Fail)" "parsed_done Fail"]
    resolveExecutionOutcome_table[of "exec_parsed (Some 1) (parsed_done Unknown)"
      "parsed_done Unknown"]
    resolveExecutionOutcome_table[of
      "exec_parsed (Some 0) ((parsed_done Pass)\<lparr>pr_status := StatusFailed\<rparr>)"
      "(parsed_done Pass)\<lparr>pr_status := StatusFailed\<rparr>"]
  by (simp add: exec_plain_def exec_parsed_def parsed_done_def)

section \<open>Properties of the runner loop\<close>



lemma attemptTask_failure:
  assumes "\<not> oc_success (resolveExecutionOutcome (it_exec ev))"
  shows "attemptTask m ev st =
     (let tid = task_id (it_task ev);
          attempt = attemptsOf (checkpoint st) tid + 1;
          reachedLimit = (int attempt > m);
          cp = (checkpoint st)\<lparr>attempts := setProperty (attempts (checkpoint st)) tid attempt,
                  lastTaskId := Some tid\<rparr>
      in (\<lparr>checkpoint = (if reachedLimit
                then cp\<lparr>blockedTaskIds := pushUnique (blockedTaskIds cp) tid\<rparr> else cp),
           totalRuns = totalRuns st + 1,
           effects = effects st @ [UpdateStatus tid InProgress,
             UpdateStatus tid (if reachedLimit then Blocked else Pending),
             AppendLedger \<lparr>le_timestamp = it_ledgerTime ev, le_taskId = tid,
                   le_title = task_title (it_task ev), le_attempt = attempt,
                   le_status = (if reachedLimit then LEDGER_BLOCKED else LEDGER_FAILED),
                   le_exitCode = exitCode (it_exec ev),
                   le_durationMs = durationMs (it_exec ev), le_logFile = logFile (it_exec ev),
                   le_notes = combineNotes [oc_note (resolveExecutionOutcome (it_exec ev)), 
                      Some (if reachedLimit
                             then ''max retries reached: '' @ int_to_string m
                             else ''will retry'')]\<rparr>]\<rparr>, True))"
  using assms unfolding attemptTask_def Let_def by (simp del: append.simps)

lemma attemptTask_success:
  assumes "oc_success (resolveExecutionOutcome (it_exec ev))"
  shows "attemptTask m ev st =
     (let tid = task_id (it_task ev);
          attempt = attemptsOf (checkpoint st) tid + 1;
          cp = (checkpoint st)\<lparr>attempts := setProperty (attempts (checkpoint st)) tid attempt,
                  lastTaskId := Some tid\<rparr>
      in (\<lparr>checkpoint = cp\<lparr>doneTaskIds := pushUnique (doneTaskIds cp) tid,
                blockedTaskIds := filter (\<lambda>i. i \<noteq> tid) (blockedTaskIds cp)\<rparr>,
           totalRuns = totalRuns st + 1,
           effects = effects st @ [UpdateStatus tid InProgress, UpdateStatus tid Done,
             AppendLedger \<lparr>le_timestamp = it_ledgerTime ev, le_taskId = tid,
                   le_title = task_title (it_task ev), le_attempt = attempt,
                   le_status = LEDGER_DONE,
                   le_exitCode = exitCode (it_exec ev),
                   le_durationMs = durationMs (it_exec ev), le_logFile = logFile (it_exec ev),
                   le_notes = oc_note (resolveExecutionOutcome (it_exec ev))\<rparr>]\<rparr>, False))"
  using assms unfolding attemptTask_def Let_def by (simp del: append.simps)





lemma persist_checkpoint [simp]:
  "doneTaskIds (checkpoint (persist now st)) = doneTaskIds (checkpoint st)"
  "blockedTaskIds (checkpoint (persist now st)) = blockedTaskIds (checkpoint st)"
  "attempts (checkpoint (persist now st)) = attempts (checkpoint st)"
  "attemptsOf (checkpoint (persist now st)) tid = attemptsOf (checkpoint st) tid"
  "totalRuns (persist now st) = totalRuns st"
  by (simp_all add: persist_def Let_def attemptsOf_def)

lemma persist_bounded [simp]:
  "openBounded m (checkpoint (persist now st)) = openBounded m (checkpoint st)"
  "allBounded m (checkpoint (persist now st)) = allBounded m (checkpoint st)"
  by (simp_all add: openBounded_def allBounded_def)



lemma attemptTask_totalRuns: "totalRuns (fst (attemptTask m ev st)) = totalRuns st + 1"
  by (cases "oc_success (resolveExecutionOutcome (it_exec ev))")
     (simp_all add: attemptTask_success attemptTask_failure Let_def)

lemma runLoop_no_limit:
  assumes "\<And>k. \<not> maxTasksReached options k"
  shows "ro_stop (runLoop options m t evs st) \<noteq> MaxTasksReached
    \<and> (ro_stop (runLoop options m t evs st) = NoNextTask \<longrightarrow>
         res_totalRuns (ro_result (runLoop options m t evs st)) = totalRuns st + length evs)
    \<and> (continueOnFailure options = Some True \<longrightarrow>
         ro_stop (runLoop options m t evs st) = NoNextTask)"
proof (induction evs arbitrary: st)
  case Nil
  then show ?case by (simp add: afterLoop_def Let_def)
next
  case (Cons ev evs)
  obtain st' failed where a: "attemptTask m ev st = (st', failed)" by (cases "attemptTask m ev st")
  with attemptTask_totalRuns[of m ev st] have "totalRuns st' = totalRuns st + 1" by simp
  with Cons[of "persist (it_saveTime ev) st'"] a assms show ?case
    by (simp add: Let_def)
qed

lemma runLoop_maxTasks_zero:
  "runLoop (options\<lparr>maxTasks := Some 0\<rparr>) m t evs st = runLoop (options\<lparr>maxTasks := None\<rparr>) m t evs st"
  by (induction evs arbitrary: st) (simp_all add: maxTasksReached_def split: prod.splits)

text \<open>
  C9. With \<^verbatim>\<open>maxTasks = 0\<close> the stop condition of line 242 is false at every count of
  runs: the run is the run without a limit, it is never left because of \<^verbatim>\<open>maxTasks\<close>, and
  when it is left because the task store has no next task every task the store handed out
  was attempted. The only other way out is the return of line 315 after a failed attempt,
  which is not taken when \<^verbatim>\<open>continueOnFailure\<close> is true.
\<close>

theorem maxTasks_zero_is_no_limit:
  assumes "maxTasks options = Some 0"
  shows "(\<forall>runs. \<not> maxTasksReached options runs)
    \<and> run options cp evs t = run (options\<lparr>maxTasks := None\<rparr>) cp evs t
    \<and> ro_stop (run options cp evs t) \<noteq> MaxTasksReached
    \<and> (ro_stop (run options cp evs t) = NoNextTask \<longrightarrow>
         res_totalRuns (ro_result (run options cp evs t)) = length evs)
    \<and> (continueOnFailure options = Some True \<longrightarrow>
         ro_stop (run options cp evs t) = NoNextTask)"
proof -
  have never: "\<And>k. \<not> maxTasksReached options k"
    using assms by (simp add: maxTasksReached_def)
  have "options = options\<lparr>maxTasks := Some 0\<rparr>" using assms by simp
  then have "run options cp evs t = run (options\<lparr>maxTasks := Some 0\<rparr>) cp evs t" by simp
  also have "\<dots> = run (options\<lparr>maxTasks := None\<rparr>) cp evs t"
    by (simp add: run_def runLoop_maxTasks_zero effectiveMaxRetries_def)
  finally have eq: "run options cp evs t = run (options\<lparr>maxTasks := None\<rparr>) cp evs t" .
  from runLoop_no_limit[OF never, of "effectiveMaxRetries options" t evs
      "\<lparr>checkpoint = cp, totalRuns = 0, effects = [SyncTodoAndMap cp]\<rparr>"]
  show ?thesis using never eq by (simp add: run_def)
qed



theorem maxTasks_zero_is_no_limit_witness:
  "ro_stop (run (run_options None (Some 0) (Some True)) (freshCheckpoint ''T0'') four_failures ''T9'')
     = NoNextTask
   \<and> res_totalRuns (ro_result
        (run (run_options None (Some 0) (Some True)) (freshCheckpoint ''T0'') four_failures ''T9''))
     = 4
   \<and> \<not> maxTasksReached (run_options None (Some 0) (Some True)) 4"
proof -
  let ?o = "run_options None (Some 0) (Some True)"
  have m: "maxTasks ?o = Some 0" and c: "continueOnFailure ?o = Some True"
    by (simp_all add: run_options_def)
  have len: "length four_failures = 4" by (simp add: four_failures_def)
  note T = maxTasks_zero_is_no_limit[OF m, of "freshCheckpoint ''T0''" four_failures "''T9''"]
  from T c have s: "ro_stop (run ?o (freshCheckpoint ''T0'') four_failures ''T9'') = NoNextTask"
    by blast
  from T s have "res_totalRuns (ro_result
        (run ?o (freshCheckpoint ''T0'') four_failures ''T9'')) = length four_failures"
    by blast
  then have n: "res_totalRuns (ro_result
        (run ?o (freshCheckpoint ''T0'') four_failures ''T9'')) = 4"
    unfolding len .
  from T have "\<not> maxTasksReached ?o 4" by blast
  with s n show ?thesis by blast
qed




text \<open>
  C3. The run of the code at the input where the claim fails. A first run on an empty
  checkpoint attempts task 1 once, with success: the checkpoint lists the task as done.
  The status of the task is then set back to pending in the task store, and a second run,
  with \<^verbatim>\<open>maxRetries = 0\<close>, loads that checkpoint and attempts the task again, without
  success. The failure branch adds the task to the blocked list and leaves the done list
  as it is (the success branch, line 260, removes the task from the blocked list): the
  checkpoint that the second run saves lists task 1 as done and as blocked.
\<close>

theorem done_task_blocked_again:
  "(let first = run (run_options (Some 0) None (Some True)) (freshCheckpoint ''T0'')
                  [answer task_one (exec_plain (Some 0) False)] ''T3'';
       second = run (run_options (Some 0) None (Some True)) (checkpoint (ro_state first))
                  [answer task_one (exec_plain (Some 1) False)] ''T6''
   in doneTaskIds (checkpoint (ro_state first)) = [''1'']
    \<and> blockedTaskIds (checkpoint (ro_state first)) = []
    \<and> attempts (checkpoint (ro_state first)) = [(''1'', 1)]
    \<and> doneTaskIds (checkpoint (ro_state second)) = [''1'']
    \<and> blockedTaskIds (checkpoint (ro_state second)) = [''1'']
    \<and> attempts (checkpoint (ro_state second)) = [(''1'', 2)]
    \<and> res_completedTaskIds (ro_result second) = [''1'']
    \<and> res_blockedTaskIds (ro_result second) = [''1''])"
  by code_simp

section \<open>Properties of the asset initializer\<close>

lemma ensureAgentsHook_frame:
  "q \<noteq> p \<Longrightarrow> snd (ensureAgentsHook p r m files) q = files q"
  by (simp add: ensureAgentsHook_def Let_def split: option.split)

lemma ensureAgentsHook_local:
  assumes "files' p = files p"
  shows "snd (ensureAgentsHook p r m files') p = snd (ensureAgentsHook p r' m files) p"
    and "(fst (ensureAgentsHook p r m files') = Inl e) = (fst (ensureAgentsHook p r' m files) = Inl e)"
  using assms by (simp_all add: ensureAgentsHook_def Let_def split: option.split)

lemma ensureCodexTasksGitignore_frame:
  "q \<noteq> gitignorePath \<Longrightarrow> ensureCodexTasksGitignore files q = files q"
  by (simp add: ensureCodexTasksGitignore_def appendFile_def Let_def split: option.split)

lemma ensureUpstreamAgentsTemplate_frame:
  "q \<noteq> p \<Longrightarrow> snd (ensureUpstreamAgentsTemplate remote p r files) q = files q"
  by (simp add: ensureUpstreamAgentsTemplate_def Let_def)

lemma ensureSkillTemplate_frame:
  "q \<noteq> p \<Longrightarrow> snd (ensureSkillTemplate remote p r files) q = files q"
  by (simp add: ensureSkillTemplate_def Let_def)

lemma ensureSpecTemplate_frame:
  "q \<noteq> p \<Longrightarrow> snd (ensureSpecTemplate p r files) q = files q"
  by (simp add: ensureSpecTemplate_def)

lemma ensureProgressTemplate_frame:
  "q \<noteq> p \<Longrightarrow> snd (ensureProgressTemplate p r files) q = files q"
  by (simp add: ensureProgressTemplate_def)

lemma initAssets_error:
  assumes "ensureAgentsHook (p_agentsPath (resolvePaths files options))
      \<lparr>paths = resolvePaths files options, created = [], updated = [], skipped = []\<rparr>
      (case agentsMode options of None \<Rightarrow> HookAppend | Some m \<Rightarrow> m)
      (ensureCodexTasksGitignore files) = (Inl e, files')"
  shows "initAssets remote options files = (Inl e, files')"
  using assms by (simp add: initAssets_def Let_def)

lemma initAssets_ok:
  assumes "ensureAgentsHook (p_agentsPath (resolvePaths files options))
      \<lparr>paths = resolvePaths files options, created = [], updated = [], skipped = []\<rparr>
      (case agentsMode options of None \<Rightarrow> HookAppend | Some m \<Rightarrow> m)
      (ensureCodexTasksGitignore files) = (Inr r1, files1)"
    and "ensureUpstreamAgentsTemplate remote (p_skillAgentsPath (resolvePaths files options)) r1 files1 = (r2, files2)"
    and "ensureSkillTemplate remote (p_skillPath (resolvePaths files options)) r2 files2 = (r3, files3)"
    and "ensureSpecTemplate (p_specPath (resolvePaths files options)) r3 files3 = (r4, files4)"
    and "ensureProgressTemplate (p_progressPath (resolvePaths files options)) r4 files4 = (r5, files5)"
  shows "initAssets remote options files =
     (if resolveMode (mode options) = ModeFull then (Inr r5, files5) else (Inr r3, files3))"
  using assms by (simp add: initAssets_def Let_def)

lemma initAssets_agents_file:
  assumes p: "p = p_agentsPath (resolvePaths files options)"
    and d: "p \<noteq> gitignorePath" "p \<noteq> p_skillAgentsPath (resolvePaths files options)"
      "p \<noteq> p_skillPath (resolvePaths files options)"
      "p \<noteq> p_specPath (resolvePaths files options)"
      "p \<noteq> p_progressPath (resolvePaths files options)"
  shows "snd (initAssets remote options files) p =
           snd (ensureAgentsHook p r
             (case agentsMode options of None \<Rightarrow> HookAppend | Some m \<Rightarrow> m) files) p
       \<and> (fst (initAssets remote options files) = Inl e) =
           (fst (ensureAgentsHook p r
             (case agentsMode options of None \<Rightarrow> HookAppend | Some m \<Rightarrow> m) files) = Inl e)"
proof -
  let ?ps = "resolvePaths files options"
  let ?m = "case agentsMode options of None \<Rightarrow> HookAppend | Some m \<Rightarrow> m"
  let ?r0 = "\<lparr>paths = ?ps, created = [], updated = [], skipped = []\<rparr>"
  let ?g = "ensureCodexTasksGitignore files"
  have g: "?g p = files p" using d(1) by (rule ensureCodexTasksGitignore_frame)
  note loc = ensureAgentsHook_local[where files'="?g" and p=p and files=files and r="?r0"
      and m="?m" and r'=r, OF g]
  obtain x files1 where h: "ensureAgentsHook p ?r0 ?m ?g = (x, files1)"
    by (cases "ensureAgentsHook p ?r0 ?m ?g")
  show ?thesis
  proof (cases x)
    case (Inl err)
    with h p have "initAssets remote options files = (Inl err, files1)"
      by (simp add: initAssets_error)
    with h Inl loc show ?thesis by simp
  next
    case (Inr r1)
    obtain r2 files2 where
      s2: "ensureUpstreamAgentsTemplate remote (p_skillAgentsPath ?ps) r1 files1 = (r2, files2)"
      by (cases "ensureUpstreamAgentsTemplate remote (p_skillAgentsPath ?ps) r1 files1")
    obtain r3 files3 where
      s3: "ensureSkillTemplate remote (p_skillPath ?ps) r2 files2 = (r3, files3)"
      by (cases "ensureSkillTemplate remote (p_skillPath ?ps) r2 files2")
    obtain r4 files4 where s4: "ensureSpecTemplate (p_specPath ?ps) r3 files3 = (r4, files4)"
      by (cases "ensureSpecTemplate (p_specPath ?ps) r3 files3")
    obtain r5 files5 where
      s5: "ensureProgressTemplate (p_progressPath ?ps) r4 files4 = (r5, files5)"
      by (cases "ensureProgressTemplate (p_progressPath ?ps) r4 files4")
    from h Inr p have h': "ensureAgentsHook (p_agentsPath ?ps) ?r0 ?m ?g = (Inr r1, files1)"
      by simp
    note I = initAssets_ok[OF h' s2 s3 s4 s5]
    have f2: "files2 p = files1 p"
      using ensureUpstreamAgentsTemplate_frame[OF d(2), of remote r1 files1] s2 by simp
    have f3: "files3 p = files2 p"
      using ensureSkillTemplate_frame[OF d(3), of remote r2 files2] s3 by simp
    have f4: "files4 p = files3 p"
      using ensureSpecTemplate_frame[OF d(4), of r3 files3] s4 by simp
    have f5: "files5 p = files4 p"
      using ensureProgressTemplate_frame[OF d(5), of r4 files4] s5 by simp
    from I f2 f3 f4 f5 h Inr loc show ?thesis by (simp split: if_splits)
  qed
qed

text \<open>
  C6. What \<^verbatim>\<open>ensureAgentsHook\<close> does, for every state of the agent-context file. A
  missing file is created with the hook block and a line feed. A file with both markers
  is left as it is and reported as skipped. A file with exactly one of the markers makes
  the operation fail with the error about invalid markers, whatever the mode, and stays
  as it is. A file with neither marker: in mode append its content, without the white
  space at its end, is followed by an empty line, the block and a line feed; in mode skip
  it stays as it is; in mode fail the operation fails with the error about the missing
  hook and the file stays as it is. \<^verbatim>\<open>initAssets\<close> passes the mode of the options,
  append when none is given: it fails exactly when \<^verbatim>\<open>ensureAgentsHook\<close> fails, with the
  same error, and leaves the agent-context file as \<^verbatim>\<open>ensureAgentsHook\<close> leaves it,
  provided the path of that file is not one of the other paths that \<^verbatim>\<open>initAssets\<close>
  writes.
\<close>

theorem ensureAgentsHook_cases:
  "(files p = None \<longrightarrow>
      ensureAgentsHook p r m files =
        (Inr (r\<lparr>created := created r @ [relativePath p]\<rparr>), files(p \<mapsto> hookBlock @ [LF])))
   \<and> (files p = Some c \<and> str_includes c AGENTS_MARK_START \<and> str_includes c AGENTS_MARK_END \<longrightarrow>
      ensureAgentsHook p r m files =
        (Inr (r\<lparr>skipped := skipped r @ [relativePath p]\<rparr>), files))
   \<and> (files p = Some c \<and> str_includes c AGENTS_MARK_START \<noteq> str_includes c AGENTS_MARK_END \<longrightarrow>
      ensureAgentsHook p r m files =
        (Inl (InvalidHookMarkers (''Invalid AGENTS hook markers in '' @ relativePath p)), files))
   \<and> (files p = Some c \<and> \<not> str_includes c AGENTS_MARK_START \<and> \<not> str_includes c AGENTS_MARK_END \<longrightarrow>
      ensureAgentsHook p r m files =
        (case m of
           HookAppend \<Rightarrow>
             (Inr (r\<lparr>updated := updated r @ [relativePath p]\<rparr>),
              files(p \<mapsto> trimEnd c @ [LF, LF] @ hookBlock @ [LF]))
         | HookSkip \<Rightarrow> (Inr (r\<lparr>skipped := skipped r @ [relativePath p]\<rparr>), files)
         | HookFail \<Rightarrow>
             (Inl (HookMissing (''AGENTS hook missing in '' @ relativePath p
                @ ''. Re-run with agentsMode=append to auto-insert.'')), files)))
   \<and> (p = p_agentsPath (resolvePaths files options)
        \<and> p \<notin> set [gitignorePath, p_skillAgentsPath (resolvePaths files options),
                     p_skillPath (resolvePaths files options),
                     p_specPath (resolvePaths files options),
                     p_progressPath (resolvePaths files options)] \<longrightarrow>
      snd (initAssets remote options files) p =
        snd (ensureAgentsHook p r
               (case agentsMode options of None \<Rightarrow> HookAppend | Some m' \<Rightarrow> m') files) p
      \<and> (fst (initAssets remote options files) = Inl e) =
        (fst (ensureAgentsHook p r
               (case agentsMode options of None \<Rightarrow> HookAppend | Some m' \<Rightarrow> m') files) = Inl e))"
proof -
  have a: "files p = None \<Longrightarrow> ensureAgentsHook p r m files =
        (Inr (r\<lparr>created := created r @ [relativePath p]\<rparr>), files(p \<mapsto> hookBlock @ [LF]))"
    by (simp add: ensureAgentsHook_def)
  have b: "files p = Some c \<Longrightarrow> str_includes c AGENTS_MARK_START \<Longrightarrow>
      str_includes c AGENTS_MARK_END \<Longrightarrow>
      ensureAgentsHook p r m files = (Inr (r\<lparr>skipped := skipped r @ [relativePath p]\<rparr>), files)"
    by (simp add: ensureAgentsHook_def)
  have c: "files p = Some c \<Longrightarrow>
      str_includes c AGENTS_MARK_START \<noteq> str_includes c AGENTS_MARK_END \<Longrightarrow>
      ensureAgentsHook p r m files =
        (Inl (InvalidHookMarkers (''Invalid AGENTS hook markers in '' @ relativePath p)), files)"
    by (auto simp: ensureAgentsHook_def)
  have d: "files p = Some c \<Longrightarrow> \<not> str_includes c AGENTS_MARK_START \<Longrightarrow>
      \<not> str_includes c AGENTS_MARK_END \<Longrightarrow>
      ensureAgentsHook p r m files =
        (case m of
           HookAppend \<Rightarrow>
             (Inr (r\<lparr>updated := updated r @ [relativePath p]\<rparr>),
              files(p \<mapsto> trimEnd c @ [LF, LF] @ hookBlock @ [LF]))
         | HookSkip \<Rightarrow> (Inr (r\<lparr>skipped := skipped r @ [relativePath p]\<rparr>), files)
         | HookFail \<Rightarrow>
             (Inl (HookMissing (''AGENTS hook missing in '' @ relativePath p
                @ ''. Re-run with agentsMode=append to auto-insert.'')), files))"
    by (cases m) (simp_all add: ensureAgentsHook_def del: append.simps)
  have e: "p = p_agentsPath (resolvePaths files options) \<Longrightarrow>
      p \<notin> set [gitignorePath, p_skillAgentsPath (resolvePaths files options),
                     p_skillPath (resolvePaths files options),
                     p_specPath (resolvePaths files options),
                     p_progressPath (resolvePaths files options)] \<Longrightarrow>
      snd (initAssets remote options files) p =
        snd (ensureAgentsHook p r
               (case agentsMode options of None \<Rightarrow> HookAppend | Some m' \<Rightarrow> m') files) p
      \<and> (fst (initAssets remote options files) = Inl e) =
        (fst (ensureAgentsHook p r
               (case agentsMode options of None \<Rightarrow> HookAppend | Some m' \<Rightarrow> m') files) = Inl e)"
    by (rule initAssets_agents_file) simp_all
  from a b c d e show ?thesis by blast
qed

theorem ensureAgentsHook_cases_witness:
  "ensureAgentsHook [''AGENTS.md''] empty_result HookFail Map.empty =
     (Inr (empty_result\<lparr>created := [''AGENTS.md'']\<rparr>), agents_file (hookBlock @ [LF]))
   \<and> ensureAgentsHook [''AGENTS.md''] empty_result HookFail (agents_file (hookBlock @ [LF])) =
     (Inr (empty_result\<lparr>skipped := [''AGENTS.md'']\<rparr>), agents_file (hookBlock @ [LF]))
   \<and> ensureAgentsHook [''AGENTS.md''] empty_result HookSkip
       (agents_file (''# Rules'' @ [LF] @ AGENTS_MARK_START @ [LF])) =
     (Inl (InvalidHookMarkers ''Invalid AGENTS hook markers in AGENTS.md''),
      agents_file (''# Rules'' @ [LF] @ AGENTS_MARK_START @ [LF]))
   \<and> ensureAgentsHook [''AGENTS.md''] empty_result HookAppend
       (agents_file (''# Existing instructions  '' @ [LF])) =
     (Inr (empty_result\<lparr>updated := [''AGENTS.md'']\<rparr>),
      agents_file (''# Existing instructions'' @ [LF, LF] @ hookBlock @ [LF]))
   \<and> fst (initAssets (\<lambda>url. None) (default_init_options\<lparr>agentsMode := Some HookFail\<rparr>)
         (agents_file (''# Existing instructions'' @ [LF]))) =
     Inl (HookMissing
       ''AGENTS hook missing in AGENTS.md. Re-run with agentsMode=append to auto-insert.'')
   \<and> snd (initAssets (\<lambda>url. None) (default_init_options\<lparr>agentsMode := Some HookFail\<rparr>)
         (agents_file (''# Existing instructions'' @ [LF]))) [''AGENTS.md''] =
     Some (''# Existing instructions'' @ [LF])"
proof -
  let ?A = "[''AGENTS.md'']"
  let ?o = "default_init_options\<lparr>agentsMode := Some HookFail\<rparr>"
  have rel: "relativePath ?A = ''AGENTS.md''" by (simp add: relativePath_def)
  have cr: "created empty_result = []" "updated empty_result = []" "skipped empty_result = []"
    by (simp_all add: empty_result_def)
  have i1: "str_includes (hookBlock @ [LF]) AGENTS_MARK_START"
    "str_includes (hookBlock @ [LF]) AGENTS_MARK_END"
    by code_simp+
  have i2: "str_includes (''# Rules'' @ [LF] @ AGENTS_MARK_START @ [LF]) AGENTS_MARK_START"
    "\<not> str_includes (''# Rules'' @ [LF] @ AGENTS_MARK_START @ [LF]) AGENTS_MARK_END"
    by code_simp+
  have i3: "\<not> str_includes (''# Existing instructions  '' @ [LF]) AGENTS_MARK_START"
    "\<not> str_includes (''# Existing instructions  '' @ [LF]) AGENTS_MARK_END"
    "\<not> str_includes (''# Existing instructions'' @ [LF]) AGENTS_MARK_START"
    "\<not> str_includes (''# Existing instructions'' @ [LF]) AGENTS_MARK_END"
    by code_simp+
  have tr: "trimEnd (''# Existing instructions  '' @ [LF]) = ''# Existing instructions''"
    by code_simp
  have ps: "p_agentsPath (resolvePaths (agents_file (''# Existing instructions'' @ [LF])) ?o) = ?A"
    "?A \<notin> set [gitignorePath,
        p_skillAgentsPath (resolvePaths (agents_file (''# Existing instructions'' @ [LF])) ?o),
        p_skillPath (resolvePaths (agents_file (''# Existing instructions'' @ [LF])) ?o),
        p_specPath (resolvePaths (agents_file (''# Existing instructions'' @ [LF])) ?o),
        p_progressPath (resolvePaths (agents_file (''# Existing instructions'' @ [LF])) ?o)]"
    by (simp_all add: resolvePaths_def resolveDefaultAgentsPath_def fileExists_def
          agents_file_def default_init_options_def gitignorePath_def Let_def)
  have md: "(case agentsMode ?o of None \<Rightarrow> HookAppend | Some m' \<Rightarrow> m') = HookFail"
    by (simp add: default_init_options_def)
  note T1 = ensureAgentsHook_cases[where files="Map.empty" and p="?A" and r=empty_result
      and m=HookFail, THEN conjunct1]
  note T2 = ensureAgentsHook_cases[where files="agents_file (hookBlock @ [LF])" and p="?A"
      and r=empty_result and m=HookFail and c="hookBlock @ [LF]",
      THEN conjunct2, THEN conjunct1]
  note T3 = ensureAgentsHook_cases[where
      files="agents_file (''# Rules'' @ [LF] @ AGENTS_MARK_START @ [LF])" and p="?A"
      and r=empty_result and m=HookSkip and c="''# Rules'' @ [LF] @ AGENTS_MARK_START @ [LF]",
      THEN conjunct2, THEN conjunct2, THEN conjunct1]
  note T4 = ensureAgentsHook_cases[where
      files="agents_file (''# Existing instructions  '' @ [LF])" and p="?A"
      and r=empty_result and m=HookAppend and c="''# Existing instructions  '' @ [LF]",
      THEN conjunct2, THEN conjunct2, THEN conjunct2, THEN conjunct1]
  note T5 = ensureAgentsHook_cases[where
      files="agents_file (''# Existing instructions'' @ [LF])" and p="?A"
      and r=empty_result and m=HookFail and c="''# Existing instructions'' @ [LF]"
      and options="?o" and remote="\<lambda>url. None"
      and e="HookMissing
       ''AGENTS hook missing in AGENTS.md. Re-run with agentsMode=append to auto-insert.''"]
  have c1: "ensureAgentsHook ?A empty_result HookFail Map.empty =
     (Inr (empty_result\<lparr>created := [''AGENTS.md'']\<rparr>), agents_file (hookBlock @ [LF]))"
    using T1 by (simp add: rel cr agents_file_def)
  have c2: "ensureAgentsHook ?A empty_result HookFail (agents_file (hookBlock @ [LF])) =
     (Inr (empty_result\<lparr>skipped := [''AGENTS.md'']\<rparr>), agents_file (hookBlock @ [LF]))"
    using T2 i1 by (simp add: rel cr agents_file_def)
  have c3: "ensureAgentsHook ?A empty_result HookSkip
       (agents_file (''# Rules'' @ [LF] @ AGENTS_MARK_START @ [LF])) =
     (Inl (InvalidHookMarkers ''Invalid AGENTS hook markers in AGENTS.md''),
      agents_file (''# Rules'' @ [LF] @ AGENTS_MARK_START @ [LF]))"
    using T3 i2 by (simp add: rel agents_file_def)
  have c4: "ensureAgentsHook ?A empty_result HookAppend
       (agents_file (''# Existing instructions  '' @ [LF])) =
     (Inr (empty_result\<lparr>updated := [''AGENTS.md'']\<rparr>),
      agents_file (''# Existing instructions'' @ [LF, LF] @ hookBlock @ [LF]))"
    using T4 i3(1,2) by (simp add: rel cr agents_file_def tr del: append.simps)
  have c5: "ensureAgentsHook ?A empty_result HookFail
       (agents_file (''# Existing instructions'' @ [LF])) =
     (Inl (HookMissing
       ''AGENTS hook missing in AGENTS.md. Re-run with agentsMode=append to auto-insert.''),
      agents_file (''# Existing instructions'' @ [LF]))"
    using T5[THEN conjunct2, THEN conjunct2, THEN conjunct2, THEN conjunct1] i3(3,4)
    by (simp add: rel agents_file_def)
  from T5[THEN conjunct2, THEN conjunct2, THEN conjunct2, THEN conjunct2] ps
  have c6: "snd (initAssets (\<lambda>url. None) ?o (agents_file (''# Existing instructions'' @ [LF]))) ?A =
        snd (ensureAgentsHook ?A empty_result HookFail
               (agents_file (''# Existing instructions'' @ [LF]))) ?A
      \<and> (fst (initAssets (\<lambda>url. None) ?o (agents_file (''# Existing instructions'' @ [LF])))
            = Inl (HookMissing
       ''AGENTS hook missing in AGENTS.md. Re-run with agentsMode=append to auto-insert.'')) =
        (fst (ensureAgentsHook ?A empty_result HookFail
               (agents_file (''# Existing instructions'' @ [LF]))) = Inl (HookMissing
       ''AGENTS hook missing in AGENTS.md. Re-run with agentsMode=append to auto-insert.''))"
    unfolding md by simp
  from c6 have c7: "fst (initAssets (\<lambda>url. None) ?o
         (agents_file (''# Existing instructions'' @ [LF]))) =
     Inl (HookMissing
       ''AGENTS hook missing in AGENTS.md. Re-run with agentsMode=append to auto-insert.'')"
    and c8: "snd (initAssets (\<lambda>url. None) ?o
         (agents_file (''# Existing instructions'' @ [LF]))) ?A =
     Some (''# Existing instructions'' @ [LF])"
    unfolding c5 by (simp_all add: agents_file_def)
  from c1 c2 c3 c4 c7 c8 show ?thesis by blast
qed

lemma str_includes_sublist: "str_includes s p = sublist p s"
proof (induction s)
  case Nil
  then show ?case by (simp add: str_includes_def)
next
  case (Cons c s)
  then show ?case
    by (auto simp: str_includes_def startsWith_prefix sublist_Cons_right)
qed

lemma occurrences_zero: "p \<noteq> [] \<Longrightarrow> (occurrences p s = 0) = (\<not> str_includes s p)"
  by (induction s) (auto simp: str_includes_def)

lemma startsWith_before_separator:
  assumes "c \<notin> set p"
  shows "startsWith (xs @ c # ys) p = startsWith xs p"
proof -
  have "prefix p (xs @ c # ys) \<Longrightarrow> prefix p xs"
  proof -
    assume "prefix p (xs @ c # ys)"
    then consider "prefix p xs" | us where "p = xs @ us" "prefix us (c # ys)"
      by (auto simp: prefix_append)
    then show "prefix p xs"
    proof cases
      case 1 then show ?thesis .
    next
      case 2
      with assms have "us = []" by (cases us) auto
      with 2 show ?thesis by simp
    qed
  qed
  moreover have "prefix p xs \<Longrightarrow> prefix p (xs @ c # ys)" by (rule prefix_prefix)
  ultimately show ?thesis by (auto simp: startsWith_prefix)
qed

lemma occurrences_separator:
  assumes "c \<notin> set p" "p \<noteq> []"
  shows "occurrences p (xs @ c # ys) = occurrences p xs + occurrences p ys"
proof (induction xs)
  case Nil
  from assms have "\<not> startsWith (c # ys) p" by (cases p) auto
  with assms show ?case by simp
next
  case (Cons x xs)
  have "startsWith (x # xs @ c # ys) p = startsWith (x # xs) p"
    using startsWith_before_separator[OF assms(1), of "x # xs" ys] by simp
  with Cons show ?case by simp
qed

lemma str_includes_trimEnd: "\<not> str_includes t p \<Longrightarrow> \<not> str_includes (trimEnd t) p"
proof -
  assume a: "\<not> str_includes t p"
  obtain zs where z: "t = trimEnd t @ zs" using trimEnd_prefix[of t] by (auto simp: prefix_def)
  {
    assume "sublist p (trimEnd t)"
    then obtain ps ss where "trimEnd t = ps @ p @ ss" by (auto simp: sublist_def)
    with z have "t = ps @ p @ (ss @ zs)" by simp
    then have "sublist p t" unfolding sublist_def by blast
  }
  with a show ?thesis by (auto simp: str_includes_sublist)
qed

lemma hook_eval:
  "str_includes (hookBlock @ [LF]) AGENTS_MARK_START"
  "str_includes (hookBlock @ [LF]) AGENTS_MARK_END"
  "occurrences AGENTS_MARK_START (hookBlock @ [LF]) = 1"
  "occurrences AGENTS_MARK_END (hookBlock @ [LF]) = 1"
  by code_simp+

lemma gitignore_eval:
  "str_includes (''*'' @ [LF] @ ''!.gitignore'' @ [LF]) ''*''"
  "str_includes (''*'' @ [LF] @ ''!.gitignore'' @ [LF]) ''!.gitignore''"
  "occurrences ''*'' (''*'' @ [LF] @ ''!.gitignore'' @ [LF]) = 1"
  "occurrences ''!.gitignore'' (''*'' @ [LF] @ ''!.gitignore'' @ [LF]) = 1"
  by code_simp+

lemma addendum_eval:
  "occurrences SKILL_INTEGRATION_MARK_START (SKILL_INTEGRATION_ADDENDUM @ [LF]) = 1"
  "occurrences SKILL_INTEGRATION_MARK_END (SKILL_INTEGRATION_ADDENDUM @ [LF]) = 1"
  by code_simp+

lemma fallback_eval:
  "\<not> str_includes DEFAULT_SKILL_TEMPLATE SKILL_INTEGRATION_MARK_START"
  "\<not> str_includes DEFAULT_SKILL_TEMPLATE SKILL_INTEGRATION_MARK_END"
  by code_simp+

lemma gitignore_fresh:
  "files gitignorePath = None \<Longrightarrow>
   ensureCodexTasksGitignore files = files(gitignorePath \<mapsto> ''*'' @ [LF] @ ''!.gitignore'' @ [LF])"
  by (simp add: ensureCodexTasksGitignore_def)

lemma gitignore_idem:
  "files gitignorePath = Some (''*'' @ [LF] @ ''!.gitignore'' @ [LF]) \<Longrightarrow>
   ensureCodexTasksGitignore files = files"
  using gitignore_eval(1,2) by (simp add: ensureCodexTasksGitignore_def del: append.simps)

lemma hook_fresh:
  "files p = None \<Longrightarrow>
   \<exists>r'. ensureAgentsHook p r m files = (Inr r', files(p \<mapsto> hookBlock @ [LF]))"
  by (simp add: ensureAgentsHook_def)

lemma hook_idem:
  "files p = Some (hookBlock @ [LF]) \<Longrightarrow> \<exists>r'. ensureAgentsHook p r m files = (Inr r', files)"
  using hook_eval(1,2) by (simp add: ensureAgentsHook_def del: append.simps)

lemma upstream_fresh:
  "files p = None \<Longrightarrow>
   snd (ensureUpstreamAgentsTemplate remote p r files) =
     files(p \<mapsto> loadRemoteTemplate remote UPSTREAM_CODEX_AGENTS_URL FALLBACK_UPSTREAM_AGENTS)"
  by (simp add: ensureUpstreamAgentsTemplate_def Let_def)

lemma upstream_idem:
  "files p = Some (loadRemoteTemplate remote UPSTREAM_CODEX_AGENTS_URL FALLBACK_UPSTREAM_AGENTS) \<Longrightarrow>
   snd (ensureUpstreamAgentsTemplate remote p r files) = files"
  by (auto simp: ensureUpstreamAgentsTemplate_def Let_def map_upd_triv)

lemma merge_nonempty: "mergeSkillWithIntegrationAddon t \<noteq> []"
  by (simp add: mergeSkillWithIntegrationAddon_def Let_def)

lemma skill_fresh:
  "files p = None \<Longrightarrow>
   snd (ensureSkillTemplate remote p r files) =
     files(p \<mapsto> mergeSkillWithIntegrationAddon
       (loadRemoteTemplate remote UPSTREAM_TASKMASTER_SKILL_URL DEFAULT_SKILL_TEMPLATE))"
  by (simp add: ensureSkillTemplate_def Let_def)

lemma skill_idem:
  "files p = Some (mergeSkillWithIntegrationAddon
       (loadRemoteTemplate remote UPSTREAM_TASKMASTER_SKILL_URL DEFAULT_SKILL_TEMPLATE)) \<Longrightarrow>
   snd (ensureSkillTemplate remote p r files) = files"
  by (auto simp: ensureSkillTemplate_def Let_def map_upd_triv merge_nonempty)

lemma spec_fresh:
  "files p = None \<Longrightarrow> snd (ensureSpecTemplate p r files) = files(p \<mapsto> DEFAULT_SPEC_TEMPLATE)"
  by (simp add: ensureSpecTemplate_def fileExists_def)

lemma spec_idem: "files p \<noteq> None \<Longrightarrow> snd (ensureSpecTemplate p r files) = files"
  by (simp add: ensureSpecTemplate_def fileExists_def)

lemma progress_fresh:
  "files p = None \<Longrightarrow>
   snd (ensureProgressTemplate p r files) = files(p \<mapsto> DEFAULT_PROGRESS_TEMPLATE)"
  by (simp add: ensureProgressTemplate_def fileExists_def)

lemma progress_idem: "files p \<noteq> None \<Longrightarrow> snd (ensureProgressTemplate p r files) = files"
  by (simp add: ensureProgressTemplate_def fileExists_def)

lemma initAssets_files:
  assumes "ensureAgentsHook (p_agentsPath (resolvePaths files options))
      \<lparr>paths = resolvePaths files options, created = [], updated = [], skipped = []\<rparr>
      (case agentsMode options of None \<Rightarrow> HookAppend | Some m \<Rightarrow> m)
      (ensureCodexTasksGitignore files) = (Inr r1, files1)"
  shows "\<exists>r2 r3 r4 r5. initAssets remote options files =
     (let ps = resolvePaths files options;
          files2 = snd (ensureUpstreamAgentsTemplate remote (p_skillAgentsPath ps) r1 files1);
          files3 = snd (ensureSkillTemplate remote (p_skillPath ps) r2 files2);
          files4 = snd (ensureSpecTemplate (p_specPath ps) r3 files3);
          files5 = snd (ensureProgressTemplate (p_progressPath ps) r4 files4)
      in if resolveMode (mode options) = ModeFull then (Inr r5, files5) else (Inr r3, files3))"
proof -
  let ?ps = "resolvePaths files options"
  obtain r2 files2 where s2: "ensureUpstreamAgentsTemplate remote (p_skillAgentsPath ?ps) r1 files1 = (r2, files2)"
    by (cases "ensureUpstreamAgentsTemplate remote (p_skillAgentsPath ?ps) r1 files1")
  obtain r3 files3 where s3: "ensureSkillTemplate remote (p_skillPath ?ps) r2 files2 = (r3, files3)"
    by (cases "ensureSkillTemplate remote (p_skillPath ?ps) r2 files2")
  obtain r4 files4 where s4: "ensureSpecTemplate (p_specPath ?ps) r3 files3 = (r4, files4)"
    by (cases "ensureSpecTemplate (p_specPath ?ps) r3 files3")
  obtain r5 files5 where s5: "ensureProgressTemplate (p_progressPath ?ps) r4 files4 = (r5, files5)"
    by (cases "ensureProgressTemplate (p_progressPath ?ps) r4 files4")
  from initAssets_ok[OF assms s2 s3 s4 s5] s2 s3 s4 s5
  have "initAssets remote options files =
     (let ps = resolvePaths files options;
          files2 = snd (ensureUpstreamAgentsTemplate remote (p_skillAgentsPath ps) r1 files1);
          files3 = snd (ensureSkillTemplate remote (p_skillPath ps) r2 files2);
          files4 = snd (ensureSpecTemplate (p_specPath ps) r3 files3);
          files5 = snd (ensureProgressTemplate (p_progressPath ps) r4 files4)
      in if resolveMode (mode options) = ModeFull then (Inr r5, files5) else (Inr r3, files3))"
    by (simp add: Let_def)
  then show ?thesis by blast
qed

lemma merge_occurrences:
  assumes "\<not> str_includes (removeMarkedBlock t SKILL_INTEGRATION_MARK_START
              SKILL_INTEGRATION_MARK_END) SKILL_INTEGRATION_MARK_START"
    and "\<not> str_includes (removeMarkedBlock t SKILL_INTEGRATION_MARK_START
              SKILL_INTEGRATION_MARK_END) SKILL_INTEGRATION_MARK_END"
  shows "occurrences SKILL_INTEGRATION_MARK_START (mergeSkillWithIntegrationAddon t) = 1"
    and "occurrences SKILL_INTEGRATION_MARK_END (mergeSkillWithIntegrationAddon t) = 1"
proof -
  let ?w = "removeMarkedBlock t SKILL_INTEGRATION_MARK_START SKILL_INTEGRATION_MARK_END"
  have shape: "mergeSkillWithIntegrationAddon t =
      trimEnd ?w @ LF # ([] @ LF # (SKILL_INTEGRATION_ADDENDUM @ [LF]))"
    by (simp add: mergeSkillWithIntegrationAddon_def Let_def)
  have m: "LF \<notin> set SKILL_INTEGRATION_MARK_START" "SKILL_INTEGRATION_MARK_START \<noteq> []"
    "LF \<notin> set SKILL_INTEGRATION_MARK_END" "SKILL_INTEGRATION_MARK_END \<noteq> []"
    by (simp_all add: SKILL_INTEGRATION_MARK_START_def SKILL_INTEGRATION_MARK_END_def)
  have z: "occurrences SKILL_INTEGRATION_MARK_START (trimEnd ?w) = 0"
    "occurrences SKILL_INTEGRATION_MARK_END (trimEnd ?w) = 0"
    using assms m by (simp_all add: occurrences_zero str_includes_trimEnd)
  have e: "occurrences SKILL_INTEGRATION_MARK_START [] = 0"
    "occurrences SKILL_INTEGRATION_MARK_END [] = 0"
    using m by simp_all
  have s1: "occurrences SKILL_INTEGRATION_MARK_START
        (trimEnd ?w @ LF # ([] @ LF # (SKILL_INTEGRATION_ADDENDUM @ [LF]))) =
      occurrences SKILL_INTEGRATION_MARK_START (trimEnd ?w)
      + occurrences SKILL_INTEGRATION_MARK_START ([] @ LF # (SKILL_INTEGRATION_ADDENDUM @ [LF]))"
    by (rule occurrences_separator[OF m(1,2)])
  have s2: "occurrences SKILL_INTEGRATION_MARK_START
        ([] @ LF # (SKILL_INTEGRATION_ADDENDUM @ [LF])) =
      occurrences SKILL_INTEGRATION_MARK_START []
      + occurrences SKILL_INTEGRATION_MARK_START (SKILL_INTEGRATION_ADDENDUM @ [LF])"
    by (rule occurrences_separator[OF m(1,2)])
  have e1: "occurrences SKILL_INTEGRATION_MARK_END
        (trimEnd ?w @ LF # ([] @ LF # (SKILL_INTEGRATION_ADDENDUM @ [LF]))) =
      occurrences SKILL_INTEGRATION_MARK_END (trimEnd ?w)
      + occurrences SKILL_INTEGRATION_MARK_END ([] @ LF # (SKILL_INTEGRATION_ADDENDUM @ [LF]))"
    by (rule occurrences_separator[OF m(3,4)])
  have e2: "occurrences SKILL_INTEGRATION_MARK_END
        ([] @ LF # (SKILL_INTEGRATION_ADDENDUM @ [LF])) =
      occurrences SKILL_INTEGRATION_MARK_END []
      + occurrences SKILL_INTEGRATION_MARK_END (SKILL_INTEGRATION_ADDENDUM @ [LF])"
    by (rule occurrences_separator[OF m(3,4)])
  show "occurrences SKILL_INTEGRATION_MARK_START (mergeSkillWithIntegrationAddon t) = 1"
    unfolding shape s1 s2 z e addendum_eval by simp
  show "occurrences SKILL_INTEGRATION_MARK_END (mergeSkillWithIntegrationAddon t) = 1"
    unfolding shape e1 e2 z e addendum_eval by simp
qed

lemma initAssets_clean:
  fixes remote :: template_source and options :: SkillRunInitOptions
  assumes d: "distinct [gitignorePath, p_agentsPath (resolvePaths Map.empty options),
      p_skillAgentsPath (resolvePaths Map.empty options),
      p_skillPath (resolvePaths Map.empty options),
      p_specPath (resolvePaths Map.empty options),
      p_progressPath (resolvePaths Map.empty options)]"
  defines "ps \<equiv> resolvePaths Map.empty options"
  defines "base \<equiv> [gitignorePath \<mapsto> ''*'' @ [LF] @ ''!.gitignore'' @ [LF],
      p_agentsPath ps \<mapsto> hookBlock @ [LF],
      p_skillAgentsPath ps \<mapsto>
        loadRemoteTemplate remote UPSTREAM_CODEX_AGENTS_URL FALLBACK_UPSTREAM_AGENTS,
      p_skillPath ps \<mapsto> mergeSkillWithIntegrationAddon
        (loadRemoteTemplate remote UPSTREAM_TASKMASTER_SKILL_URL DEFAULT_SKILL_TEMPLATE)]"
  defines "f1 \<equiv> (if resolveMode (mode options) = ModeFull
      then base(p_specPath ps \<mapsto> DEFAULT_SPEC_TEMPLATE,
                p_progressPath ps \<mapsto> DEFAULT_PROGRESS_TEMPLATE)
      else base)"
  shows "\<exists>r1. initAssets remote options Map.empty = (Inr r1, f1)"
    and "\<exists>r2. initAssets remote options f1 = (Inr r2, f1)"
proof -
  let ?m = "case agentsMode options of None \<Rightarrow> HookAppend | Some m \<Rightarrow> m"
  let ?r0 = "\<lparr>paths = ps, created = [], updated = [], skipped = []\<rparr>"
  let ?gi = "''*'' @ [LF] @ ''!.gitignore'' @ [LF]"
  let ?G = gitignorePath
  let ?A = "p_agentsPath ps"
  let ?SA = "p_skillAgentsPath ps"
  let ?S = "p_skillPath ps"
  let ?SP = "p_specPath ps"
  let ?PR = "p_progressPath ps"
  from d have dd: "?A \<noteq> ?G" "?SA \<noteq> ?G" "?SA \<noteq> ?A" "?S \<noteq> ?G" "?S \<noteq> ?A" "?S \<noteq> ?SA"
    "?SP \<noteq> ?G" "?SP \<noteq> ?A" "?SP \<noteq> ?SA" "?SP \<noteq> ?S"
    "?PR \<noteq> ?G" "?PR \<noteq> ?A" "?PR \<noteq> ?SA" "?PR \<noteq> ?S" "?PR \<noteq> ?SP"
    unfolding ps_def by auto
  have g0: "ensureCodexTasksGitignore Map.empty = [?G \<mapsto> ?gi]"
    by (simp add: gitignore_fresh)
  obtain r1 where h: "ensureAgentsHook ?A ?r0 ?m [?G \<mapsto> ?gi] = (Inr r1, [?G \<mapsto> ?gi, ?A \<mapsto> hookBlock @ [LF]])"
    using hook_fresh[of "[?G \<mapsto> ?gi]" ?A ?r0 ?m] dd by auto
  from h g0 have h': "ensureAgentsHook (p_agentsPath (resolvePaths Map.empty options))
      \<lparr>paths = resolvePaths Map.empty options, created = [], updated = [], skipped = []\<rparr>
      ?m (ensureCodexTasksGitignore Map.empty) = (Inr r1, [?G \<mapsto> ?gi, ?A \<mapsto> hookBlock @ [LF]])"
    by (simp add: ps_def)
  from initAssets_files[OF h', of remote] obtain r2 r3 r4 r5 where
    I: "initAssets remote options Map.empty =
     (let ps = resolvePaths Map.empty options;
          files2 = snd (ensureUpstreamAgentsTemplate remote (p_skillAgentsPath ps) r1 [?G \<mapsto> ?gi, ?A \<mapsto> hookBlock @ [LF]]);
          files3 = snd (ensureSkillTemplate remote (p_skillPath ps) r2 files2);
          files4 = snd (ensureSpecTemplate (p_specPath ps) r3 files3);
          files5 = snd (ensureProgressTemplate (p_progressPath ps) r4 files4)
      in if resolveMode (mode options) = ModeFull then (Inr r5, files5) else (Inr r3, files3))"
    by blast
  have first: "initAssets remote options Map.empty =
      (if resolveMode (mode options) = ModeFull then (Inr r5, f1) else (Inr r3, f1))"
    unfolding I Let_def ps_def[symmetric]
    using dd
    by (simp add: upstream_fresh skill_fresh spec_fresh progress_fresh f1_def base_def)
  then show "\<exists>r1. initAssets remote options Map.empty = (Inr r1, f1)" by auto
  have f1v: "f1 ?G = Some ?gi" "f1 ?A = Some (hookBlock @ [LF])"
    "f1 ?SA = Some (loadRemoteTemplate remote UPSTREAM_CODEX_AGENTS_URL FALLBACK_UPSTREAM_AGENTS)"
    "f1 ?S = Some (mergeSkillWithIntegrationAddon
        (loadRemoteTemplate remote UPSTREAM_TASKMASTER_SKILL_URL DEFAULT_SKILL_TEMPLATE))"
    "resolveMode (mode options) = ModeFull \<Longrightarrow> f1 ?SP \<noteq> None"
    "resolveMode (mode options) = ModeFull \<Longrightarrow> f1 ?PR \<noteq> None"
    using dd by (auto simp: f1_def base_def)
  have same_paths: "resolvePaths f1 options = ps"
  proof (cases "agentsPath options")
    case None
    then have "?A = [''AGENTS.md'']"
      by (simp add: ps_def resolvePaths_def resolveDefaultAgentsPath_def fileExists_def Let_def)
    with f1v(2) have "fileExists f1 [''AGENTS.md'']" by (simp add: fileExists_def)
    with None show ?thesis
      by (simp add: ps_def resolvePaths_def resolveDefaultAgentsPath_def fileExists_def Let_def)
  next
    case (Some a)
    then show ?thesis by (simp add: ps_def resolvePaths_def Let_def)
  qed
  have g1: "ensureCodexTasksGitignore f1 = f1" using f1v(1) by (rule gitignore_idem)
  obtain q1 where k: "ensureAgentsHook ?A ?r0 ?m f1 = (Inr q1, f1)"
    using hook_idem[where files=f1 and p="?A" and r="?r0" and m="?m", OF f1v(2)] by blast
  from k g1 same_paths have k': "ensureAgentsHook (p_agentsPath (resolvePaths f1 options))
      \<lparr>paths = resolvePaths f1 options, created = [], updated = [], skipped = []\<rparr>
      ?m (ensureCodexTasksGitignore f1) = (Inr q1, f1)"
    by simp
  from initAssets_files[OF k', of remote] obtain q2 q3 q4 q5 where
    J: "initAssets remote options f1 =
     (let ps = resolvePaths f1 options;
          files2 = snd (ensureUpstreamAgentsTemplate remote (p_skillAgentsPath ps) q1 f1);
          files3 = snd (ensureSkillTemplate remote (p_skillPath ps) q2 files2);
          files4 = snd (ensureSpecTemplate (p_specPath ps) q3 files3);
          files5 = snd (ensureProgressTemplate (p_progressPath ps) q4 files4)
      in if resolveMode (mode options) = ModeFull then (Inr q5, files5) else (Inr q3, files3))"
    by blast
  have "initAssets remote options f1 =
      (if resolveMode (mode options) = ModeFull then (Inr q5, f1) else (Inr q3, f1))"
    unfolding J Let_def same_paths
    using f1v by (simp add: upstream_idem skill_idem spec_idem progress_idem)
  then show "\<exists>r2. initAssets remote options f1 = (Inr r2, f1)" by auto
qed

text \<open>
  C7. \<^verbatim>\<open>initAssets\<close> twice on a project without any file, for every template source that
  answers the second run as it answered the first, and for all options under which the
  six files that \<^verbatim>\<open>initAssets\<close> writes have six different paths (those of the default
  layout have). Both runs succeed, and the second run leaves every file as the first run
  left it. The agent-context file is the hook block and a line feed, with one start and
  one end marker. The \<^verbatim>\<open>.gitignore\<close> of \<^verbatim>\<open>.codex-tasks\<close> is the two lines \<^verbatim>\<open>*\<close> and
  \<^verbatim>\<open>!.gitignore\<close>, each once. The skill file is the template with the integration
  addendum, and it holds one start and one end marker of the addendum when the template,
  after \<^verbatim>\<open>removeMarkedBlock\<close>, holds none, as the fallback template does.
\<close>

theorem initAssets_idempotent:
  fixes remote :: template_source and options :: SkillRunInitOptions
  assumes "distinct [gitignorePath, p_agentsPath (resolvePaths Map.empty options),
      p_skillAgentsPath (resolvePaths Map.empty options),
      p_skillPath (resolvePaths Map.empty options),
      p_specPath (resolvePaths Map.empty options),
      p_progressPath (resolvePaths Map.empty options)]"
  shows "\<not> isl (fst (initAssets remote options Map.empty))
    \<and> \<not> isl (fst (initAssets remote options (snd (initAssets remote options Map.empty))))
    \<and> snd (initAssets remote options (snd (initAssets remote options Map.empty)))
        = snd (initAssets remote options Map.empty)
    \<and> snd (initAssets remote options Map.empty) (p_agentsPath (resolvePaths Map.empty options))
        = Some (hookBlock @ [LF])
    \<and> occurrences AGENTS_MARK_START (hookBlock @ [LF]) = 1
    \<and> occurrences AGENTS_MARK_END (hookBlock @ [LF]) = 1
    \<and> snd (initAssets remote options Map.empty) gitignorePath
        = Some (''*'' @ [LF] @ ''!.gitignore'' @ [LF])
    \<and> occurrences ''*'' (''*'' @ [LF] @ ''!.gitignore'' @ [LF]) = 1
    \<and> occurrences ''!.gitignore'' (''*'' @ [LF] @ ''!.gitignore'' @ [LF]) = 1
    \<and> snd (initAssets remote options Map.empty) (p_skillPath (resolvePaths Map.empty options))
        = Some (mergeSkillWithIntegrationAddon
            (loadRemoteTemplate remote UPSTREAM_TASKMASTER_SKILL_URL DEFAULT_SKILL_TEMPLATE))
    \<and> (\<not> str_includes
            (removeMarkedBlock
               (loadRemoteTemplate remote UPSTREAM_TASKMASTER_SKILL_URL DEFAULT_SKILL_TEMPLATE)
               SKILL_INTEGRATION_MARK_START SKILL_INTEGRATION_MARK_END)
            SKILL_INTEGRATION_MARK_START
        \<and> \<not> str_includes
            (removeMarkedBlock
               (loadRemoteTemplate remote UPSTREAM_TASKMASTER_SKILL_URL DEFAULT_SKILL_TEMPLATE)
               SKILL_INTEGRATION_MARK_START SKILL_INTEGRATION_MARK_END)
            SKILL_INTEGRATION_MARK_END
       \<longrightarrow> occurrences SKILL_INTEGRATION_MARK_START
             (mergeSkillWithIntegrationAddon
               (loadRemoteTemplate remote UPSTREAM_TASKMASTER_SKILL_URL DEFAULT_SKILL_TEMPLATE)) = 1
         \<and> occurrences SKILL_INTEGRATION_MARK_END
             (mergeSkillWithIntegrationAddon
               (loadRemoteTemplate remote UPSTREAM_TASKMASTER_SKILL_URL DEFAULT_SKILL_TEMPLATE)) = 1)"
proof -
  let ?ps = "resolvePaths Map.empty options"
  from assms have dd: "p_agentsPath ?ps \<noteq> gitignorePath" "p_skillAgentsPath ?ps \<noteq> gitignorePath"
    "p_skillAgentsPath ?ps \<noteq> p_agentsPath ?ps" "p_skillPath ?ps \<noteq> gitignorePath"
    "p_skillPath ?ps \<noteq> p_agentsPath ?ps" "p_skillPath ?ps \<noteq> p_skillAgentsPath ?ps"
    "p_specPath ?ps \<noteq> gitignorePath" "p_specPath ?ps \<noteq> p_agentsPath ?ps"
    "p_specPath ?ps \<noteq> p_skillAgentsPath ?ps" "p_specPath ?ps \<noteq> p_skillPath ?ps"
    "p_progressPath ?ps \<noteq> gitignorePath" "p_progressPath ?ps \<noteq> p_agentsPath ?ps"
    "p_progressPath ?ps \<noteq> p_skillAgentsPath ?ps" "p_progressPath ?ps \<noteq> p_skillPath ?ps"
    "p_progressPath ?ps \<noteq> p_specPath ?ps"
    by auto
  define f1 where "f1 = (if resolveMode (mode options) = ModeFull
      then [gitignorePath \<mapsto> ''*'' @ [LF] @ ''!.gitignore'' @ [LF],
            p_agentsPath ?ps \<mapsto> hookBlock @ [LF],
            p_skillAgentsPath ?ps \<mapsto>
              loadRemoteTemplate remote UPSTREAM_CODEX_AGENTS_URL FALLBACK_UPSTREAM_AGENTS,
            p_skillPath ?ps \<mapsto> mergeSkillWithIntegrationAddon
              (loadRemoteTemplate remote UPSTREAM_TASKMASTER_SKILL_URL DEFAULT_SKILL_TEMPLATE),
            p_specPath ?ps \<mapsto> DEFAULT_SPEC_TEMPLATE,
            p_progressPath ?ps \<mapsto> DEFAULT_PROGRESS_TEMPLATE]
      else [gitignorePath \<mapsto> ''*'' @ [LF] @ ''!.gitignore'' @ [LF],
            p_agentsPath ?ps \<mapsto> hookBlock @ [LF],
            p_skillAgentsPath ?ps \<mapsto>
              loadRemoteTemplate remote UPSTREAM_CODEX_AGENTS_URL FALLBACK_UPSTREAM_AGENTS,
            p_skillPath ?ps \<mapsto> mergeSkillWithIntegrationAddon
              (loadRemoteTemplate remote UPSTREAM_TASKMASTER_SKILL_URL DEFAULT_SKILL_TEMPLATE)])"
  have "\<exists>r1. initAssets remote options Map.empty = (Inr r1, f1)"
    using initAssets_clean(1)[OF assms, of remote] unfolding f1_def by (simp del: append.simps)
  then obtain r1 where a: "initAssets remote options Map.empty = (Inr r1, f1)" by blast
  have "\<exists>r2. initAssets remote options f1 = (Inr r2, f1)"
    using initAssets_clean(2)[OF assms, of remote] unfolding f1_def by (simp del: append.simps)
  then obtain r2 where b: "initAssets remote options f1 = (Inr r2, f1)" by blast
  have v: "f1 (p_agentsPath ?ps) = Some (hookBlock @ [LF])"
    "f1 gitignorePath = Some (''*'' @ [LF] @ ''!.gitignore'' @ [LF])"
    "f1 (p_skillPath ?ps) = Some (mergeSkillWithIntegrationAddon
            (loadRemoteTemplate remote UPSTREAM_TASKMASTER_SKILL_URL DEFAULT_SKILL_TEMPLATE))"
    using dd by (auto simp: f1_def)
  from a b v merge_occurrences[of
      "loadRemoteTemplate remote UPSTREAM_TASKMASTER_SKILL_URL DEFAULT_SKILL_TEMPLATE"]
    hook_eval(3,4) gitignore_eval(3,4)
  show ?thesis by (simp del: append.simps)
qed

theorem initAssets_idempotent_witness:
  "snd (initAssets (\<lambda>url. None) default_init_options
         (snd (initAssets (\<lambda>url. None) default_init_options Map.empty)))
     = snd (initAssets (\<lambda>url. None) default_init_options Map.empty)
   \<and> \<not> isl (fst (initAssets (\<lambda>url. None) default_init_options
         (snd (initAssets (\<lambda>url. None) default_init_options Map.empty))))
   \<and> snd (initAssets (\<lambda>url. None) default_init_options Map.empty) [''AGENTS.md'']
     = Some (hookBlock @ [LF])
   \<and> snd (initAssets (\<lambda>url. None) default_init_options Map.empty)
         [''.codex'', ''skills'', ''taskmaster-longrun'', ''SKILL.md'']
     = Some (mergeSkillWithIntegrationAddon DEFAULT_SKILL_TEMPLATE)
   \<and> occurrences SKILL_INTEGRATION_MARK_START
         (mergeSkillWithIntegrationAddon DEFAULT_SKILL_TEMPLATE) = 1
   \<and> occurrences SKILL_INTEGRATION_MARK_END
         (mergeSkillWithIntegrationAddon DEFAULT_SKILL_TEMPLATE) = 1"
proof -
  let ?o = default_init_options
  let ?ps = "resolvePaths Map.empty ?o"
  have p: "p_agentsPath ?ps = [''AGENTS.md'']"
    "p_skillPath ?ps = [''.codex'', ''skills'', ''taskmaster-longrun'', ''SKILL.md'']"
    "p_skillAgentsPath ?ps = [''.codex'', ''skills'', ''taskmaster-longrun'', ''AGENTS.md'']"
    "p_specPath ?ps = [''.codex-tasks'', ''taskmaster-longrun'', ''SPEC.md'']"
    "p_progressPath ?ps = [''.codex-tasks'', ''taskmaster-longrun'', ''PROGRESS.md'']"
    by (simp_all add: resolvePaths_def resolveDefaultAgentsPath_def fileExists_def
          default_init_options_def Let_def)
  have d: "distinct [gitignorePath, p_agentsPath ?ps, p_skillAgentsPath ?ps, p_skillPath ?ps,
      p_specPath ?ps, p_progressPath ?ps]"
    unfolding p by (simp add: gitignorePath_def)
  have l: "loadRemoteTemplate (\<lambda>url. None) UPSTREAM_TASKMASTER_SKILL_URL DEFAULT_SKILL_TEMPLATE
      = DEFAULT_SKILL_TEMPLATE"
    by (simp add: loadRemoteTemplate_def)
  have c: "\<not> str_includes
       (removeMarkedBlock DEFAULT_SKILL_TEMPLATE SKILL_INTEGRATION_MARK_START
          SKILL_INTEGRATION_MARK_END) SKILL_INTEGRATION_MARK_START"
    "\<not> str_includes
       (removeMarkedBlock DEFAULT_SKILL_TEMPLATE SKILL_INTEGRATION_MARK_START
          SKILL_INTEGRATION_MARK_END) SKILL_INTEGRATION_MARK_END"
    by code_simp+
  note T = initAssets_idempotent[OF d, where remote="\<lambda>url. None"]
  from T c show ?thesis unfolding l p by blast
qed

end
